theory Spec2Isabelle
  imports Complex_Main "HOL-Library.Word"
begin

text \<open>
  The resume analysis pipeline of SkillForgeX and its cache layer, as functions of
  Isabelle/HOL: the scoring and the skill assessment, the keyword and entity extraction
  with their fallbacks, the Redis cache with its merge of skill records, the job results,
  and the ranking of articles. What the program takes from outside (the clock, random
  numbers, the document decoders, the inference service, the library \<open>natural\<close>,
  the outcome of each call to Redis) is an argument of the functions. The first part has
  the definitions, file by file; the second part has the properties.
\<close>

section \<open>JavaScript values used by the analysis pipeline\<close>

text \<open>
  A JavaScript string is a sequence of UTF-16 code units. The model covers the code
  units below 256, which are the characters of \<^typ>\<open>string\<close>, and gives
  \<open>toLowerCase\<close>, the digits, the word characters and the white space of regular
  expressions on them.
\<close>

definition lower_char :: "char \<Rightarrow> char" where
  "lower_char c =
     (let n = (of_char c :: nat)
      in if (65 \<le> n \<and> n \<le> 90) \<or> (192 \<le> n \<and> n \<le> 222 \<and> n \<noteq> 215)
         then char_of (n + 32) else c)"

definition toLowerCase :: "string \<Rightarrow> string" where
  "toLowerCase s = map lower_char s"

definition is_digit :: "char \<Rightarrow> bool" where
  "is_digit c = (let n = (of_char c :: nat) in 48 \<le> n \<and> n \<le> 57)"

definition is_upper :: "char \<Rightarrow> bool" where
  "is_upper c = (let n = (of_char c :: nat) in 65 \<le> n \<and> n \<le> 90)"

definition is_letter :: "char \<Rightarrow> bool" where
  "is_letter c = (let n = (of_char c :: nat) in (65 \<le> n \<and> n \<le> 90) \<or> (97 \<le> n \<and> n \<le> 122))"

definition is_word_char :: "char \<Rightarrow> bool" where
  "is_word_char c = (is_letter c \<or> is_digit c \<or> c = CHR ''_'')"

definition is_space :: "char \<Rightarrow> bool" where
  "is_space c = (let n = (of_char c :: nat) in (9 \<le> n \<and> n \<le> 13) \<or> n = 32 \<or> n = 160)"

text \<open>\<open>t.startsWith(s)\<close> and \<open>t.includes(s)\<close>.\<close>

fun starts_with :: "string \<Rightarrow> string \<Rightarrow> bool" where
  "starts_with t [] = True"
| "starts_with [] (c # cs) = False"
| "starts_with (x # xs) (c # cs) = (x = c \<and> starts_with xs cs)"

fun str_includes :: "string \<Rightarrow> string \<Rightarrow> bool" where
  "str_includes [] s = (s = [])"
| "str_includes (x # xs) s = (starts_with (x # xs) s \<or> str_includes xs s)"

text \<open>\<open>trim\<close> removes the white space at both ends.\<close>

definition trim :: "string \<Rightarrow> string" where
  "trim s = rev (dropWhile is_space (rev (dropWhile is_space s)))"

text \<open>
  \<open>[...new Set(xs)]\<close>: the elements of \<open>xs\<close> in the order of their first
  occurrence.
\<close>

fun uniq :: "'a list \<Rightarrow> 'a list" where
  "uniq [] = []"
| "uniq (x # xs) = x # uniq (filter (\<lambda>y. y \<noteq> x) xs)"

text \<open>
  \<open>Array.prototype.sort\<close> with a comparison function is stable; \<open>after x y\<close>
  says that the comparison of \<open>x\<close> with \<open>y\<close> is positive, so that \<open>x\<close> goes
  behind \<open>y\<close>. A comparison that is NaN counts as zero. Where the comparison is
  consistent, as it is when every comparison is a number and on every list of two
  elements, the result of a stable sort is unique, and it is the result of this
  insertion sort. Where it is not, as when NaN makes one element the equal of two
  elements that differ, the order is left to the sorting algorithm of the engine, and
  the insertion sort is only one of the orders the program may produce.
\<close>

fun insert_sorted :: "('a \<Rightarrow> 'a \<Rightarrow> bool) \<Rightarrow> 'a \<Rightarrow> 'a list \<Rightarrow> 'a list" where
  "insert_sorted after x [] = [x]"
| "insert_sorted after x (y # ys) =
     (if after x y then y # insert_sorted after x ys else x # y # ys)"

definition js_sort :: "('a \<Rightarrow> 'a \<Rightarrow> bool) \<Rightarrow> 'a list \<Rightarrow> 'a list" where
  "js_sort after xs = foldr (insert_sorted after) xs []"

text \<open>
  A JavaScript number is an IEEE double, modelled by the real it denotes. The scoring
  code only compares the analyser's numbers with constants and adds multiples of one
  half in the range 0 to 130, which doubles do exactly. \<open>NaN\<close> stands
  for NaN and for a missing property (\<open>undefined\<close>): every comparison with either
  is false.
\<close>

datatype jsnum = Num real | NaN

text \<open>
  Where the program computes with numbers that doubles do not hold exactly, the model
  rounds as the program does: \<open>fl x\<close> is the double nearest to \<open>x\<close>, the nearer
  of the two neighbours with 53 significant bits, and the one with the even last bit
  when \<open>x\<close> is half way (the spacing stops shrinking below \<open>2^-1022\<close>, as for
  subnormal doubles). An arithmetic operation of the program is the exact operation
  followed by \<open>fl\<close>, and a decimal constant such as \<open>0.3\<close> is \<open>fl (3 / 10)\<close>.
  Results of magnitude \<open>2^1024\<close> and more, which the program holds as infinities,
  and the sign of zero are outside the model.
\<close>

function exp_up :: "real \<Rightarrow> nat" where
  "exp_up x = (if x < 2 then 0 else Suc (exp_up (x / 2)))"
  by pat_completeness auto
termination
  by (relation "measure (\<lambda>x. nat \<lfloor>x\<rfloor>)") (auto, linarith)

fun exp_down :: "nat \<Rightarrow> real \<Rightarrow> nat" where
  "exp_down 0 x = 0"
| "exp_down (Suc n) x = (if 1 \<le> x then 0 else Suc (exp_down n (2 * x)))"

text \<open>The spacing of the doubles around a positive number.\<close>

definition ulp :: "real \<Rightarrow> real" where
  "ulp x = (if 1 \<le> x then 2 ^ exp_up x / 2 ^ 52 else 1 / (2 ^ exp_down 1022 x * 2 ^ 52))"

definition round_even :: "real \<Rightarrow> int" where
  "round_even y =
     (let f = \<lfloor>y\<rfloor>; d = y - of_int f
      in if d < 1 / 2 then f else if 1 / 2 < d then f + 1 else if even f then f else f + 1)"

definition fl :: "real \<Rightarrow> real" where
  "fl x = (if x = 0 then 0 else sgn x * (of_int (round_even (\<bar>x\<bar> / ulp \<bar>x\<bar>)) * ulp \<bar>x\<bar>))"

fun js_gt :: "jsnum \<Rightarrow> real \<Rightarrow> bool" where
  "js_gt (Num x) c = (x > c)"
| "js_gt NaN c = False"

fun js_lt :: "jsnum \<Rightarrow> real \<Rightarrow> bool" where
  "js_lt (Num x) c = (x < c)"
| "js_lt NaN c = False"

record sentiment =
  s_label :: string
  s_score :: jsnum
  s_allResults :: "(string \<times> jsnum) list"

record readability =
  sentenceCount :: nat
  wordCount :: nat
  avgSentenceLength :: jsnum
  avgWordLength :: jsnum
  fleschScore :: jsnum
  fleschGradeLevel :: jsnum
  difficultWords :: jsnum

text \<open>
  The entity structure. \<open>certifications\<close> is optional because the fallback analysis
  of processResume.js builds an entity object without that bucket.
\<close>

record entities =
  skills :: "string list"
  companies :: "string list"
  titles :: "string list"
  education :: "string list"
  certifications :: "string list option"

section \<open>Scoring (processResume.js, calculateScore)\<close>

definition calculateScore :: "sentiment \<Rightarrow> entities \<Rightarrow> readability \<Rightarrow> nat \<Rightarrow> real" where
  "calculateScore sent ents rd keywordCount =
     (let score = 70;
          score = (if s_label sent = ''joy'' \<and> js_gt (s_score sent) (7 / 10)
                   then score + 10 else score);
          score = (if js_gt (fleschScore rd) 60 then score + 5 else score);
          score = (if js_lt (avgSentenceLength rd) 20 then score + 5 else score);
          score = score + min (real (length (skills ents)) * 2) 20;
          score = score + min (real (length (companies ents)) * 1) 10;
          score = score + min (real keywordCount * (1 / 2)) 10
      in min (max score 0) 100)"

text \<open>\<open>Math.round\<close>: the nearest integer, halves rounded up.\<close>

definition math_round :: "real \<Rightarrow> int" where
  "math_round x = \<lfloor>x + 1 / 2\<rfloor>"

text \<open>
  The scoring contract in the words of the specification: a base of 70, the bonuses,
  the three capped contributions, and the clamp to the interval from 0 to 100.
\<close>

definition sentiment_bonus :: "sentiment \<Rightarrow> real" where
  "sentiment_bonus sent =
     (if s_label sent = ''joy'' \<and> js_gt (s_score sent) (7 / 10) then 10 else 0)"

definition readability_bonus :: "readability \<Rightarrow> real" where
  "readability_bonus rd =
     (if js_gt (fleschScore rd) 60 then 5 else 0) +
     (if js_lt (avgSentenceLength rd) 20 then 5 else 0)"

definition score_spec :: "sentiment \<Rightarrow> entities \<Rightarrow> readability \<Rightarrow> nat \<Rightarrow> real" where
  "score_spec sent ents rd keywordCount =
     min 100 (max 0
       (70 + sentiment_bonus sent + readability_bonus rd
           + min 20 (2 * real (length (skills ents)))
           + min 10 (real (length (companies ents)))
           + min 10 (real keywordCount / 2)))"

definition no_entities :: entities where
  "no_entities = \<lparr>skills = [], companies = [], titles = [], education = [],
                   certifications = Some []\<rparr>"

definition neutral_sentiment :: sentiment where
  "neutral_sentiment = \<lparr>s_label = ''neutral'', s_score = Num 1, s_allResults = []\<rparr>"

definition zero_readability :: readability where
  "zero_readability =
     \<lparr>sentenceCount = 0, wordCount = 0, avgSentenceLength = Num 0, avgWordLength = Num 0,
      fleschScore = Num 0, fleschGradeLevel = Num 0, difficultWords = Num 0\<rparr>"


section \<open>Skill assessment (processResume.js, assessSkills)\<close>

text \<open>
  A skill record as the cache holds it and as the functions build it. A field that a
  JavaScript object may lack is optional: \<open>None\<close> is the absent property, and for a
  number also the NaN that arithmetic on an absent property gives. JSON writes NaN as
  null, and a null counts as 0 in a later sum where an absent property gives NaN again;
  the record does not tell the two apart, so that it stands for the cached record only
  as long as no NaN has been written.
\<close>

record skill =
  name :: string
  level :: "real option"
  targetLevel :: "real option"
  category :: "string option"
  lastPracticed :: "string option"
  progress :: "real option"

text \<open>
  \<open>calculateSkillLevel\<close> draws \<open>Math.random()\<close>; the draw is the argument
  \<open>rnd\<close>, and its product with 30 is rounded to a double before the floor is
  taken. The sums that follow are sums of small integers, which doubles hold exactly.
\<close>

definition calculateSkillLevel :: "real \<Rightarrow> string \<Rightarrow> int" where
  "calculateSkillLevel rnd skillName =
     (let baseLevel = min (\<lfloor>fl (rnd * 30)\<rfloor> + 50) 90;
          bonus = int (length skillName mod 20)
      in min (baseLevel + bonus) 100)"

definition categories :: "(string \<times> string list) list" where
  "categories =
     [(''programming'', [''javascript'', ''python'', ''java'', ''c++'', ''typescript'', ''go'', ''rust'']),
      (''frontend'', [''react'', ''angular'', ''vue'', ''html'', ''css'', ''sass'']),
      (''backend'', [''node'', ''express'', ''django'', ''flask'', ''spring'', ''laravel'']),
      (''database'', [''mysql'', ''postgresql'', ''mongodb'', ''redis'', ''sqlite'']),
      (''devops'', [''docker'', ''kubernetes'', ''aws'', ''azure'', ''gcp'', ''terraform'']),
      (''soft'', [''communication'', ''leadership'', ''teamwork'', ''problem solving''])]"

definition getSkillCategory :: "string \<Rightarrow> string" where
  "getSkillCategory skillName =
     (let lowerSkill = toLowerCase skillName
      in case find (\<lambda>(cat, names). list_ex (\<lambda>s. str_includes lowerSkill s) names) categories of
           Some (cat, names) \<Rightarrow> cat
         | None \<Rightarrow> ''other'')"

text \<open>
  \<open>assessSkills\<close>: \<open>rnd i\<close> is the draw for the skill at index \<open>i\<close>, and \<open>now\<close>
  the time stamp \<open>new Date().toISOString()\<close>.
\<close>

definition assessSkill :: "real \<Rightarrow> string \<Rightarrow> string \<Rightarrow> skill" where
  "assessSkill rnd now skillName =
     (let lvl = calculateSkillLevel rnd skillName
      in \<lparr>name = skillName,
          level = Some (of_int lvl),
          targetLevel = Some (if lvl < 80 then of_int lvl + 20 else 100),
          category = Some (getSkillCategory skillName),
          lastPracticed = Some now,
          progress = Some 0\<rparr>)"

definition assessSkills :: "(nat \<Rightarrow> real) \<Rightarrow> string \<Rightarrow> string list \<Rightarrow> skill list" where
  "assessSkills rnd now names =
     map (\<lambda>(i, skillName). assessSkill (rnd i) now skillName) (enumerate 0 names)"

section \<open>The cache layer (userDashboardCache.js)\<close>

record dashboard =
  d_score :: int
  strengths :: "string list"
  improvements :: "string list"
  d_keywords :: "string list"
  importantPhrases :: "string list"
  d_sentiment :: sentiment
  d_readability :: readability
  d_entities :: entities
  lastUpdated :: "string option"

text \<open>
  A terminal job payload: \<open>{status: 'completed', result, timestamp}\<close> with the
  JSON text of the analysis result, or \<open>{status: 'failed', error, timestamp}\<close>
  with the error message.
\<close>

datatype payload = Completed string string | Failed string string

text \<open>
  What \<open>JSON.parse\<close> makes of a cached string under the \<open>ner:\<close> prefix: an object
  whose keys are buckets of an entity structure, each a list of strings, or any other
  JSON value (\<open>Other_json\<close>: null, a number, a string, an array, an object with
  another key, without one of the first four buckets, or with a bucket that is not a
  list of strings).
\<close>

datatype ner_value = Structure entities | Other_json

text \<open>
  A cached string under the \<open>ner:\<close> prefix that is not empty: the JSON of a value, or
  a string that \<open>JSON.parse\<close> rejects. The empty string, which the program takes for
  no entry because it is falsy, is not told apart from a missing key.
\<close>

datatype ner_entry = Cached ner_value | Corrupt

text \<open>
  The Redis store. Every key of the program starts with one of the prefixes
  \<open>dashboard:\<close>, \<open>user:\<close>, \<open>skills:\<close>, \<open>articles:\<close>,
  \<open>recommendations:\<close>, \<open>resume:\<close> and \<open>ner:\<close>, so the store is one map for
  each prefix, from the rest of the key to the value that \<open>JSON.parse\<close> reads back.
  The time to live of an entry is not modelled: no time passes between the calls.
  A call to Redis can be rejected; \<open>faults\<close> lists the outcomes of the calls to come
  (\<open>True\<close> for a call that goes through), and the calls after the end of the list go
  through.
\<close>

record redis =
  dashboard_ns :: "string \<rightharpoonup> dashboard"
  activity_ns :: "string \<rightharpoonup> string"
  skills_ns :: "string \<rightharpoonup> skill list"
  articles_ns :: "string \<rightharpoonup> string"
  recommendations_ns :: "string \<rightharpoonup> string"
  resume_ns :: "string \<rightharpoonup> payload"
  ner_ns :: "32 word \<rightharpoonup> ner_entry"
  faults :: "bool list"

datatype error =
    RedisError
  | UnsupportedFileType
  | ReadError
  | InvalidResumeText
  | RequestFailed
  | NoDataReceived
  | TypeError
  | LibraryError

definition redis_call :: "redis \<Rightarrow> bool \<times> redis" where
  "redis_call r = (case faults r of [] \<Rightarrow> (True, r) | ok # rest \<Rightarrow> (ok, r\<lparr>faults := rest\<rparr>))"

definition getSkillProgress :: "string \<Rightarrow> redis \<Rightarrow> (error + skill list option) \<times> redis" where
  "getSkillProgress userId r =
     (let (ok, r1) = redis_call r
      in if ok then (Inr (skills_ns r1 userId), r1) else (Inl RedisError, r1))"

text \<open>The merge of one incoming record with the cached ones, by the first name match.\<close>

definition mergeSkill :: "skill list \<Rightarrow> skill \<Rightarrow> skill" where
  "mergeSkill existingSkills newSkill =
     (case find (\<lambda>s. name s = name newSkill) existingSkills of
        Some existingSkill \<Rightarrow>
          newSkill\<lparr>progress := progress existingSkill,
                   lastPracticed := lastPracticed existingSkill\<rparr>
      | None \<Rightarrow> newSkill)"

definition setSkillProgress :: "string \<Rightarrow> skill list \<Rightarrow> redis \<Rightarrow> (error + bool) \<times> redis" where
  "setSkillProgress userId newSkills r =
     (case getSkillProgress userId r of
        (Inl e, r1) \<Rightarrow> (Inl e, r1)
      | (Inr cached, r1) \<Rightarrow>
          (let existingSkills = (case cached of None \<Rightarrow> [] | Some xs \<Rightarrow> xs);
               mergedSkills = map (mergeSkill existingSkills) newSkills;
               (ok, r2) = redis_call r1
           in if ok then (Inr True, r2\<lparr>skills_ns := (skills_ns r2)(userId \<mapsto> mergedSkills)\<rparr>)
              else (Inl RedisError, r2)))"

text \<open>
  The methods of the cache module call one another through \<open>this\<close>. A call on the
  module object (\<open>cache.setSkillProgress(...)\<close>) binds \<open>this\<close> to the module; a
  call of the function taken out of the module
  (\<open>const { setSkillProgress } = require('./userDashboardCache')\<close>) does not, and
  then \<open>this.getSkillProgress\<close> is \<open>undefined\<close> and the first statement of the
  \<open>try\<close> block throws a TypeError, which the handler logs and throws again, before
  any call to Redis.
\<close>

datatype receiver = CacheModule | Detached

definition setSkillProgress_from ::
    "receiver \<Rightarrow> string \<Rightarrow> skill list \<Rightarrow> redis \<Rightarrow> (error + bool) \<times> redis" where
  "setSkillProgress_from this userId newSkills r =
     (case this of
        CacheModule \<Rightarrow> setSkillProgress userId newSkills r
      | Detached \<Rightarrow> (Inl TypeError, r))"

text \<open>
  The callback of \<open>updateSkillProgress\<close> on one record; the sum is the sum of
  doubles, and the sum with an absent progress is NaN.
\<close>

definition bumpSkill :: "string \<Rightarrow> real \<Rightarrow> string \<Rightarrow> skill \<Rightarrow> skill" where
  "bumpSkill skillName progressDelta now s =
     (if name s = skillName
      then (let newProgress = map_option (\<lambda>p. min (fl (p + progressDelta)) 100) (progress s)
            in s\<lparr>progress := newProgress, lastPracticed := Some now\<rparr>)
      else s)"

definition updateSkillProgress ::
    "string \<Rightarrow> string \<Rightarrow> real \<Rightarrow> string \<Rightarrow> redis \<Rightarrow> (error + skill list) \<times> redis" where
  "updateSkillProgress userId skillName progressDelta now r =
     (case getSkillProgress userId r of
        (Inl e, r1) \<Rightarrow> (Inl e, r1)
      | (Inr cached, r1) \<Rightarrow>
          (let skills0 = (case cached of None \<Rightarrow> [] | Some xs \<Rightarrow> xs);
               updatedSkills = map (bumpSkill skillName progressDelta now) skills0
           in case setSkillProgress userId updatedSkills r1 of
                (Inl e, r2) \<Rightarrow> (Inl e, r2)
              | (Inr done, r2) \<Rightarrow> (Inr updatedSkills, r2)))"

definition setDashboard :: "string \<Rightarrow> dashboard \<Rightarrow> string \<Rightarrow> redis \<Rightarrow> (error + bool) \<times> redis" where
  "setDashboard userId dashboardData now r =
     (let (ok1, r1) = redis_call r
      in if \<not> ok1 then (Inl RedisError, r1)
         else (let r2 = r1\<lparr>dashboard_ns := (dashboard_ns r1)(userId \<mapsto> dashboardData)\<rparr>;
                   (ok2, r3) = redis_call r2
               in if \<not> ok2 then (Inl RedisError, r3)
                  else (Inr True, r3\<lparr>activity_ns := (activity_ns r3)(userId \<mapsto> now)\<rparr>)))"

text \<open>
  \<open>invalidateAllUserCaches\<close> starts the four deletions at once and waits for all of
  them: each is a call to Redis, the ones that go through delete their key, and the
  whole rejects when one of them is rejected.
\<close>

definition invalidateAllUserCaches :: "string \<Rightarrow> redis \<Rightarrow> (error + bool) \<times> redis" where
  "invalidateAllUserCaches userId r =
     (let (ok1, r1) = redis_call r;
          r1 = (if ok1 then r1\<lparr>dashboard_ns := (dashboard_ns r1)(userId := None)\<rparr> else r1);
          (ok2, r2) = redis_call r1;
          r2 = (if ok2 then r2\<lparr>skills_ns := (skills_ns r2)(userId := None)\<rparr> else r2);
          (ok3, r3) = redis_call r2;
          r3 = (if ok3 then r3\<lparr>articles_ns := (articles_ns r3)(userId := None)\<rparr> else r3);
          (ok4, r4) = redis_call r3;
          r4 = (if ok4 then r4\<lparr>recommendations_ns := (recommendations_ns r4)(userId := None)\<rparr> else r4)
      in if ok1 \<and> ok2 \<and> ok3 \<and> ok4 then (Inr True, r4) else (Inl RedisError, r4))"

definition empty_redis :: redis where
  "empty_redis =
     \<lparr>dashboard_ns = Map.empty, activity_ns = Map.empty, skills_ns = Map.empty,
      articles_ns = Map.empty, recommendations_ns = Map.empty, resume_ns = Map.empty,
      ner_ns = Map.empty, faults = []\<rparr>"

section \<open>Job results (server.js)\<close>

text \<open>
  The queue processor writes the terminal payload of a job under
  \<open>resume:${userId}:${job.id}\<close>; \<open>result_key\<close> is that key without the prefix.
\<close>

definition result_key :: "string \<Rightarrow> string \<Rightarrow> string" where
  "result_key userId jobId = userId @ '':'' @ jobId"

text \<open>
  The catch block of the processor: it writes the failure payload and throws the error
  again; when the write is rejected, that rejection is what the job fails with.
\<close>

definition job_failed :: "string \<Rightarrow> string \<Rightarrow> string \<Rightarrow> string \<Rightarrow> redis \<Rightarrow> (string + string) \<times> redis" where
  "job_failed userId jobId message now r =
     (let (ok, r1) = redis_call r
      in if ok
         then (Inl message,
               r1\<lparr>resume_ns := (resume_ns r1)(result_key userId jobId \<mapsto> Failed message now)\<rparr>)
         else (Inl ''redis error'', r1))"

text \<open>
  The processor. \<open>pipeline\<close> is the outcome of the stages before the cache write
  (text extraction, analysis, the two writes to the document store): the JSON text of
  the analysis result, or the message of the error one of them threw. The result is
  what the job resolves with (\<open>Inr\<close>) or the message it fails with (\<open>Inl\<close>). The
  uploaded file, which the processor deletes on every path, is not part of the model.
\<close>

definition process_job ::
    "string \<Rightarrow> string \<Rightarrow> string + string \<Rightarrow> string \<Rightarrow> redis \<Rightarrow> (string + string) \<times> redis" where
  "process_job userId jobId pipeline now r =
     (case pipeline of
        Inl message \<Rightarrow> job_failed userId jobId message now r
      | Inr analysisResult \<Rightarrow>
          (let (ok, r1) = redis_call r
           in if \<not> ok then job_failed userId jobId ''redis error'' now r1
              else (let r2 = r1\<lparr>resume_ns :=
                                 (resume_ns r1)(result_key userId jobId \<mapsto> Completed analysisResult now)\<rparr>
                    in case invalidateAllUserCaches userId r2 of
                         (Inl e, r3) \<Rightarrow> job_failed userId jobId ''redis error'' now r3
                       | (Inr done, r3) \<Rightarrow> (Inr analysisResult, r3))))"

text \<open>
  \<open>GET /api/resume-analysis/:jobId\<close> reads the key \<open>resume:${jobId}\<close>.
\<close>

datatype http_response = Json payload | NotFound | ServerError

definition get_resume_analysis :: "string \<Rightarrow> redis \<Rightarrow> http_response \<times> redis" where
  "get_resume_analysis jobId r =
     (let (ok, r1) = redis_call r
      in if \<not> ok then (ServerError, r1)
         else (case resume_ns r1 jobId of
                 None \<Rightarrow> (NotFound, r1)
               | Some result \<Rightarrow> (Json result, r1)))"

section \<open>Content ranking (the module of fetchDevBlogs)\<close>

record article =
  a_title :: string
  a_url :: string
  a_description :: string
  a_tag :: string
  a_image :: string
  a_publishedAt :: "int option"
  a_readingTime :: jsnum
  a_source :: string

text \<open>
  \<open>a_publishedAt\<close> is \<open>new Date(article.publishedAt).getTime()\<close>, in milliseconds,
  and \<open>None\<close> when the date does not parse (the time is NaN then).
\<close>

record prioritized =
  p_name :: string
  gap :: real
  p_category :: string

fun js_ge :: "jsnum \<Rightarrow> real \<Rightarrow> bool" where
  "js_ge (Num x) c = (x \<ge> c)"
| "js_ge NaN c = False"

fun js_le :: "jsnum \<Rightarrow> real \<Rightarrow> bool" where
  "js_le (Num x) c = (x \<le> c)"
| "js_le NaN c = False"

text \<open>
  \<open>calculateRelevance\<close>, with \<open>Date.now()\<close> as the argument \<open>now\<close>. Every
  division and addition is the one of doubles; the time stamps, their difference for
  dates of this era and the number of milliseconds of a day are integers that doubles
  hold exactly.
\<close>

definition calculateRelevance :: "int \<Rightarrow> prioritized \<Rightarrow> article \<Rightarrow> real" where
  "calculateRelevance now sk art =
     (let relevance = fl (gap sk / 100);
          relevance = (if toLowerCase (a_tag art) = toLowerCase (p_name sk)
                       then fl (relevance + fl (3 / 10)) else relevance);
          relevance = (case a_publishedAt art of
                         None \<Rightarrow> relevance
                       | Some published \<Rightarrow>
                           (let daysOld = fl (fl (real_of_int now - real_of_int published)
                                              / (1000 * 60 * 60 * 24))
                            in if daysOld < 7 then fl (relevance + fl (2 / 10)) else relevance));
          relevance = (if js_ge (a_readingTime art) 5 \<and> js_le (a_readingTime art) 15
                       then fl (relevance + fl (1 / 10)) else relevance)
      in min relevance 1)"

text \<open>\<open>x || d\<close> on a number that may be absent: zero and NaN are falsy.\<close>

definition or_default :: "real option \<Rightarrow> real \<Rightarrow> real" where
  "or_default x d = (case x of None \<Rightarrow> d | Some v \<Rightarrow> if v = 0 then d else v)"



section \<open>Keywords and phrases (processResume.js)\<close>

text \<open>
  \<open>wordFreq\<close> is a plain object used as a table of counts. Its own properties are
  kept in the order of their creation. A value is a count, or the string that \<open>+ 1\<close> makes of a function inherited from
  \<open>Object.prototype\<close>, which is not a number.
\<close>

datatype freq = Count nat | NotNumber

definition object_prototype_keys :: "string list" where
  "object_prototype_keys =
     [''constructor'', ''__defineGetter__'', ''__defineSetter__'', ''hasOwnProperty'',
      ''__lookupGetter__'', ''__lookupSetter__'', ''isPrototypeOf'', ''propertyIsEnumerable'',
      ''toString'', ''valueOf'', ''__proto__'', ''toLocaleString'']"

text \<open>Assignment to an own property: in place when it exists, at the end otherwise.\<close>

fun set_prop :: "string \<Rightarrow> 'v \<Rightarrow> (string \<times> 'v) list \<Rightarrow> (string \<times> 'v) list" where
  "set_prop k v [] = [(k, v)]"
| "set_prop k v ((k', v') # rest) =
     (if k' = k then (k, v) # rest else (k', v') # set_prop k v rest)"

text \<open>
  \<open>wordFreq[word] = (wordFreq[word] || 0) + 1\<close>. The read finds an own property, or
  an inherited one, or nothing. An inherited function is truthy, and adding 1 to it
  gives a string. The assignment to \<open>__proto__\<close> goes to the setter of
  \<open>Object.prototype\<close>, which ignores a string.
\<close>

definition bump_word :: "(string \<times> freq) list \<Rightarrow> string \<Rightarrow> (string \<times> freq) list" where
  "bump_word wordFreq word =
     (case map_of wordFreq word of
        Some (Count n) \<Rightarrow> set_prop word (Count (n + 1)) wordFreq
      | Some NotNumber \<Rightarrow> set_prop word NotNumber wordFreq
      | None \<Rightarrow>
          if word = ''__proto__'' then wordFreq
          else if word \<in> set object_prototype_keys then set_prop word NotNumber wordFreq
          else set_prop word (Count 1) wordFreq)"

text \<open>
  \<open>Object.entries\<close> lists the own properties whose key is an array index (the
  decimal form of a number below \<open>2^32 - 1\<close>) first, in ascending order of the
  number, and then the other keys in the order of their creation.
\<close>

definition digits_value :: "string \<Rightarrow> nat" where
  "digits_value s = foldl (\<lambda>n c. 10 * n + (of_char c - 48)) 0 s"

definition is_index_key :: "string \<Rightarrow> bool" where
  "is_index_key k =
     (k \<noteq> [] \<and> list_all is_digit k \<and> (k = ''0'' \<or> hd k \<noteq> CHR ''0'')
      \<and> digits_value k < 4294967295)"

definition object_entries :: "(string \<times> 'v) list \<Rightarrow> (string \<times> 'v) list" where
  "object_entries props =
     js_sort (\<lambda>a b. digits_value (fst a) > digits_value (fst b))
       (filter (\<lambda>p. is_index_key (fst p)) props)
     @ filter (\<lambda>p. \<not> is_index_key (fst p)) props"

text \<open>
  The comparison \<open>b[1] - a[1]\<close> of two entries is positive when both values are
  counts and the second is larger; with a value that is not a number it is NaN.
\<close>

fun freq_after :: "string \<times> freq \<Rightarrow> string \<times> freq \<Rightarrow> bool" where
  "freq_after (a, Count m) (b, Count n) = (n > m)"
| "freq_after (a, x) (b, y) = False"

definition by_frequency :: "string list \<Rightarrow> string list" where
  "by_frequency ws = map fst (js_sort freq_after (object_entries (foldl bump_word [] ws)))"

text \<open>
  \<open>extractKeywords\<close>. The word tokenizer and the stop words come from the library
  \<open>natural\<close> and are the arguments \<open>tokenize\<close> and \<open>stopwords\<close>.
\<close>

definition keep_word :: "string list \<Rightarrow> string \<Rightarrow> bool" where
  "keep_word stopwords word =
     (length word > 3 \<and> word \<notin> set stopwords \<and> \<not> list_ex is_digit word)"

definition extractKeywords :: "(string \<Rightarrow> string list) \<Rightarrow> string list \<Rightarrow> string \<Rightarrow> string list" where
  "extractKeywords tokenize stopwords text =
     (let ws = tokenize (toLowerCase text);
          filteredWords = filter (keep_word stopwords) ws
      in by_frequency filteredWords)"

text \<open>
  The word tokenizer of \<open>natural\<close> splits a text at the runs of characters that are
  neither letters, digits nor underscores, and drops the empty pieces. It is used to run
  \<open>extractKeywords\<close> on concrete texts.
\<close>

fun split_words :: "string \<Rightarrow> string \<Rightarrow> string list" where
  "split_words cur [] = (if cur = [] then [] else [cur])"
| "split_words cur (c # cs) =
     (if is_word_char c then split_words (cur @ [c]) cs
      else if cur = [] then split_words [] cs
      else cur # split_words [] cs)"

definition word_tokenizer :: "string \<Rightarrow> string list" where
  "word_tokenizer text = split_words [] text"

text \<open>The number of times a word occurs in a list of words.\<close>

definition occurrences :: "string list \<Rightarrow> string \<Rightarrow> nat" where
  "occurrences ws w = length (filter (\<lambda>x. x = w) ws)"

text \<open>A list of words is in descending order of their frequency in \<open>ws\<close>.\<close>

fun descending_by :: "('a \<Rightarrow> nat) \<Rightarrow> 'a list \<Rightarrow> bool" where
  "descending_by f [] = True"
| "descending_by f [x] = True"
| "descending_by f (x # y # rest) = (f x \<ge> f y \<and> descending_by f (y # rest))"

text \<open>\<open>words.join(' ')\<close>.\<close>

fun join_space :: "string list \<Rightarrow> string" where
  "join_space [] = []"
| "join_space [w] = w"
| "join_space (w # v # rest) = w @ '' '' @ join_space (v # rest)"

text \<open>
  The grouping loop of \<open>extractImportantPhrases\<close> over the tagged words, with the
  phrase under construction as \<open>cur\<close>.
\<close>

fun group_phrases :: "string list \<Rightarrow> string list \<Rightarrow> (string \<times> string) list \<Rightarrow> string list" where
  "group_phrases stopwords cur [] = (if cur \<noteq> [] then [join_space cur] else [])"
| "group_phrases stopwords cur ((word, tg) # rest) =
     (if starts_with tg ''NN'' \<and> toLowerCase word \<notin> set stopwords
      then group_phrases stopwords (cur @ [word]) rest
      else if cur \<noteq> [] then join_space cur # group_phrases stopwords [] rest
      else group_phrases stopwords [] rest)"

section \<open>Entity extraction (nerProcessor.js)\<close>

text \<open>
  \<open>hashText\<close> keeps a 32-bit hash; the cache key is \<open>ner:\<close> followed by the
  hash in base 16, and the store is indexed by the hash itself. The empty text, for
  which the function returns the word \<open>empty\<close>, is never hashed: \<open>extractEntities\<close>
  has thrown before.
\<close>

fun hash_loop :: "32 word \<Rightarrow> string \<Rightarrow> 32 word" where
  "hash_loop h [] = h"
| "hash_loop h (c # cs) = hash_loop (push_bit 5 h - h + of_nat (of_char c)) cs"

definition hashText :: "string \<Rightarrow> 32 word" where
  "hashText text = hash_loop 0 text"

text \<open>
  \<open>cleanEntityText\<close>: the subword marker at the start goes, then every character
  that is not a word character, white space or a hyphen, then the white space at both
  ends.
\<close>

definition strip_marker :: "string \<Rightarrow> string" where
  "strip_marker s = (if starts_with s ''##'' then drop 2 s else s)"

definition entity_char :: "char \<Rightarrow> bool" where
  "entity_char c = (is_word_char c \<or> is_space c \<or> c = CHR ''-'')"

definition cleanEntityText :: "string \<Rightarrow> string" where
  "cleanEntityText s = trim (filter entity_char (strip_marker s))"

definition isEducationalInstitution :: "string \<Rightarrow> bool" where
  "isEducationalInstitution s =
     (s \<noteq> [] \<and> list_ex (\<lambda>keyword. str_includes (toLowerCase s) keyword)
                   [''university'', ''college'', ''institute'', ''school'', ''academy''])"

definition isLikelyTitle :: "string \<Rightarrow> bool" where
  "isLikelyTitle s =
     (s \<noteq> [] \<and> list_ex (\<lambda>keyword. str_includes (toLowerCase s) keyword)
                   [''engineer'', ''developer'', ''manager'', ''director'', ''specialist''])"

text \<open>
  An element of the array the inference service answers with: an object with a word and
  an entity tag, both strings, or anything else (\<open>Other\<close>: null, or a value without
  a string under \<open>word\<close> or without a tag), which the loop skips.
\<close>

datatype ner_item = Item string string | Other

text \<open>
  The answer of the inference service to one request: the request fails (time out,
  network error, error status), or the body is falsy, or it is a value that is not an
  array, or it is an array.
\<close>

datatype ner_reply = Rejected | Falsy | NotArray | Items "ner_item list"

definition push_cert :: "string \<Rightarrow> entities \<Rightarrow> entities" where
  "push_cert s e = e\<lparr>certifications := Some ((case certifications e of None \<Rightarrow> [] | Some xs \<Rightarrow> xs) @ [s])\<rparr>"

definition add_item :: "entities \<Rightarrow> ner_item \<Rightarrow> entities" where
  "add_item result it =
     (case it of
        Other \<Rightarrow> result
      | Item word tg \<Rightarrow>
          if word = [] \<or> tg = [] then result
          else (let s = cleanEntityText word
                in if s = [] then result
                   else if tg = ''B-TECH'' \<or> tg = ''I-TECH''
                     then (if length s > 1 then result\<lparr>skills := skills result @ [s]\<rparr> else result)
                   else if tg = ''B-ORG'' \<or> tg = ''I-ORG''
                     then (if isEducationalInstitution s
                           then result\<lparr>education := education result @ [s]\<rparr>
                           else result\<lparr>companies := companies result @ [s]\<rparr>)
                   else if tg = ''B-PER'' \<or> tg = ''I-PER''
                     then (if isLikelyTitle s then result\<lparr>titles := titles result @ [s]\<rparr> else result)
                   else if tg = ''B-EDU'' \<or> tg = ''I-EDU''
                     then result\<lparr>education := education result @ [s]\<rparr>
                   else if tg = ''B-CERT'' \<or> tg = ''I-CERT''
                     then push_cert s result
                   else result))"

text \<open>The last pass over a bucket: clean again, drop what is too short, deduplicate.\<close>

definition finish_bucket :: "string list \<Rightarrow> string list" where
  "finish_bucket xs =
     uniq (filter (\<lambda>s. length s > 1) (map cleanEntityText (filter (\<lambda>s. s \<noteq> []) xs)))"

definition finish_buckets :: "entities \<Rightarrow> entities" where
  "finish_buckets e =
     \<lparr>skills = finish_bucket (skills e), companies = finish_bucket (companies e),
      titles = finish_bucket (titles e), education = finish_bucket (education e),
      certifications = map_option finish_bucket (certifications e)\<rparr>"

definition processNERResults :: "ner_item list option \<Rightarrow> entities" where
  "processNERResults reply =
     (case reply of
        None \<Rightarrow> no_entities
      | Some items \<Rightarrow> finish_buckets (foldl add_item no_entities items))"

text \<open>
  The two regular expressions of the fallback. \<open>spaces_then\<close> is \<open>\s+\<close>: the text
  behind the longest run of white space, which must not be empty. \<open>name_at\<close> is
  \<open>[A-Z][a-zA-Z]+\<close>, where the flag \<open>i\<close> lets the first letter be small.
  Each piece is followed by a character outside its own class, so the longest run is the
  only one that can match.
\<close>

datatype pattern = CompanyPattern | EducationPattern

definition spaces_then :: "string \<Rightarrow> string option" where
  "spaces_then s =
     (case s of [] \<Rightarrow> None
      | c # cs \<Rightarrow> if is_space c then Some (dropWhile is_space cs) else None)"

definition name_at :: "bool \<Rightarrow> string \<Rightarrow> (string \<times> string) option" where
  "name_at ignoreCase s =
     (case s of [] \<Rightarrow> None
      | c # cs \<Rightarrow>
          if (if ignoreCase then is_letter c else is_upper c) \<and> takeWhile is_letter cs \<noteq> []
          then Some (c # takeWhile is_letter cs, dropWhile is_letter cs)
          else None)"

text \<open>
  \<open>/at\s+([A-Z][a-zA-Z]+)/\<close> at the start of \<open>s\<close>: the first group and the text
  behind the match.
\<close>

definition match_company :: "string \<Rightarrow> (string \<times> string) option" where
  "match_company s =
     (if starts_with s ''at''
      then (case spaces_then (drop 2 s) of
              None \<Rightarrow> None
            | Some s1 \<Rightarrow> name_at False s1)
      else None)"

text \<open>
  \<open>/(university|college)\s+of\s+([A-Z][a-zA-Z]+)/i\<close> at the start of \<open>s\<close>: the
  first group, which is the word \<open>university\<close> or \<open>college\<close> as the text writes
  it, and the text behind the match.
\<close>

definition institution_word :: "string \<Rightarrow> nat option" where
  "institution_word s =
     (if map lower_char (take 10 s) = ''university'' then Some 10
      else if map lower_char (take 7 s) = ''college'' then Some 7
      else None)"

definition match_education :: "string \<Rightarrow> (string \<times> string) option" where
  "match_education s =
     (case institution_word s of
        None \<Rightarrow> None
      | Some n \<Rightarrow>
          (case spaces_then (drop n s) of
             None \<Rightarrow> None
           | Some s1 \<Rightarrow>
               if map lower_char (take 2 s1) = ''of''
               then (case spaces_then (drop 2 s1) of
                       None \<Rightarrow> None
                     | Some s2 \<Rightarrow>
                         (case name_at True s2 of
                            None \<Rightarrow> None
                          | Some (nm, rest) \<Rightarrow> Some (take n s, rest)))
               else None))"

definition match_at :: "pattern \<Rightarrow> string \<Rightarrow> (string \<times> string) option" where
  "match_at p s = (case p of CompanyPattern \<Rightarrow> match_company s | EducationPattern \<Rightarrow> match_education s)"

lemma spaces_then_shorter: "spaces_then s = Some t \<Longrightarrow> length t < length s"
  by (auto simp: spaces_then_def less_Suc_eq_le length_dropWhile_le split: list.splits if_splits)

lemma name_at_shorter: "name_at b s = Some (nm, t) \<Longrightarrow> length t < length s"
  by (auto simp: name_at_def less_Suc_eq_le length_dropWhile_le split: list.splits if_splits)

lemma match_company_shorter: "match_company s = Some (g, t) \<Longrightarrow> length t < length s"
proof -
  assume m: "match_company s = Some (g, t)"
  then obtain s1 where s1: "spaces_then (drop 2 s) = Some s1" and n: "name_at False s1 = Some (g, t)"
    by (auto simp: match_company_def split: if_splits option.splits)
  have "length t < length s1" using n by (rule name_at_shorter)
  moreover have "length s1 < length (drop 2 s)" using s1 by (rule spaces_then_shorter)
  ultimately show ?thesis by simp
qed

lemma match_education_shorter: "match_education s = Some (g, t) \<Longrightarrow> length t < length s"
proof -
  assume m: "match_education s = Some (g, t)"
  then obtain n s1 s2 nm where s1: "spaces_then (drop n s) = Some s1"
      and s2: "spaces_then (drop 2 s1) = Some s2" and nm: "name_at True s2 = Some (nm, t)"
    by (auto simp: match_education_def split: if_splits option.splits)
  have "length t < length s2" using nm by (rule name_at_shorter)
  moreover have "length s2 < length (drop 2 s1)" using s2 by (rule spaces_then_shorter)
  moreover have "length s1 < length (drop n s)" using s1 by (rule spaces_then_shorter)
  ultimately show ?thesis by simp
qed

lemma match_at_shorter: "match_at p s = Some (g, t) \<Longrightarrow> length t < length s"
  by (cases p) (auto simp: match_at_def dest: match_company_shorter match_education_shorter)

text \<open>
  The loop of \<open>extractByPattern\<close>: \<open>pattern.exec(text)\<close> finds the first match at
  or behind the place where the last one ended. The first group is never empty in
  either pattern, so it is the string the loop keeps.
\<close>

function exec_all :: "pattern \<Rightarrow> string \<Rightarrow> string list" where
  "exec_all p [] = []"
| "exec_all p (c # cs) =
     (case match_at p (c # cs) of
        Some (g, rest) \<Rightarrow> g # exec_all p rest
      | None \<Rightarrow> exec_all p cs)"
  by pat_completeness auto
termination
  by (relation "measure (\<lambda>(p, s). length s)") (auto dest: match_at_shorter)

definition extractByPattern :: "string \<Rightarrow> pattern \<Rightarrow> string list" where
  "extractByPattern text p = uniq (filter (\<lambda>m. m \<noteq> []) (map trim (exec_all p text)))"

definition techKeywords :: "string list" where
  "techKeywords = [''javascript'', ''react'', ''node'', ''python'', ''java'', ''html'', ''css'']"

text \<open>
  The input of the entity extraction is a string, or a value that is not a string
  (\<open>None\<close>).
\<close>

definition fallbackEntityExtraction :: "string option \<Rightarrow> entities" where
  "fallbackEntityExtraction input =
     (case input of
        None \<Rightarrow> no_entities
      | Some text \<Rightarrow>
          if text = [] then no_entities
          else \<lparr>skills = filter (\<lambda>skill. str_includes (toLowerCase text) skill) techKeywords,
                companies = extractByPattern text CompanyPattern,
                titles = [],
                education = extractByPattern text EducationPattern,
                certifications = Some []\<rparr>)"

text \<open>
  The request to the inference service and what follows it. A rejected write to the
  cache is logged and ignored. The string written is the JSON of the structure found,
  which \<open>JSON.parse\<close> reads back as that structure.
\<close>

definition request_entities ::
    "(string \<Rightarrow> ner_reply) \<Rightarrow> string \<Rightarrow> 32 word \<Rightarrow> redis \<Rightarrow> (error + ner_value) \<times> redis" where
  "request_entities api resumeText cacheKey r =
     (case api resumeText of
        Rejected \<Rightarrow> (Inl RequestFailed, r)
      | Falsy \<Rightarrow> (Inl NoDataReceived, r)
      | reply \<Rightarrow>
          (let found = processNERResults (case reply of Items items \<Rightarrow> Some items | other \<Rightarrow> None);
               (ok, r1) = redis_call r
           in (Inr (Structure found),
               if ok then r1\<lparr>ner_ns := (ner_ns r1)(cacheKey \<mapsto> Cached (Structure found))\<rparr>
               else r1)))"

text \<open>
  The body of the \<open>try\<close> block of \<open>extractEntities\<close>. A cached string that parses
  is returned as the value it parses to, whatever that value is.
\<close>

definition extractEntities_try ::
    "(string \<Rightarrow> ner_reply) \<Rightarrow> string option \<Rightarrow> redis \<Rightarrow> (error + ner_value) \<times> redis" where
  "extractEntities_try api input r =
     (case input of
        None \<Rightarrow> (Inl InvalidResumeText, r)
      | Some resumeText \<Rightarrow>
          if resumeText = [] \<or> trim resumeText = [] then (Inl InvalidResumeText, r)
          else (let cacheKey = hashText resumeText;
                    (ok, r1) = redis_call r
                in if \<not> ok then (Inl RedisError, r1)
                   else (case ner_ns r1 cacheKey of
                           Some (Cached parsed) \<Rightarrow> (Inr parsed, r1)
                         | Some Corrupt \<Rightarrow>
                             (let (ok2, r2) = redis_call r1
                              in if \<not> ok2 then (Inl RedisError, r2)
                                 else request_entities api resumeText cacheKey
                                        (r2\<lparr>ner_ns := (ner_ns r2)(cacheKey := None)\<rparr>))
                         | None \<Rightarrow> request_entities api resumeText cacheKey r1)))"

text \<open>\<open>extractEntities\<close>: the \<open>try\<close> block with its \<open>catch\<close>.\<close>

definition extractEntities ::
    "(string \<Rightarrow> ner_reply) \<Rightarrow> string option \<Rightarrow> redis \<Rightarrow> (error + ner_value) \<times> redis" where
  "extractEntities api input r =
     (case extractEntities_try api input r of
        (Inl e, r1) \<Rightarrow> (Inr (Structure (fallbackEntityExtraction input)), r1)
      | (Inr found, r1) \<Rightarrow> (Inr found, r1))"

section \<open>The analysis pipeline (processResume.js)\<close>

text \<open>
  What the pipeline takes from outside: the decoders of the three document types, the
  two requests to the inference service, the tokenizers, the stop words, the readability
  statistics and the tagger of the library \<open>natural\<close>, and the random draws. A call
  that can throw returns an error or a value.
\<close>

record world =
  readPdf :: "string \<Rightarrow> error + string"
  readDocx :: "string \<Rightarrow> error + string"
  readPlain :: "string \<Rightarrow> error + string"
  sentimentApi :: "string \<Rightarrow> (string \<times> jsnum) list option"
  nerApi :: "string \<Rightarrow> ner_reply"
  sentenceTokenizer :: "string \<Rightarrow> error + string list"
  plainWordTokenizer :: "string \<Rightarrow> error + string list"
  wordTokenizer :: "string \<Rightarrow> string list"
  stopwordList :: "string list"
  textStatistics :: "string \<Rightarrow> error + jsnum \<times> jsnum \<times> jsnum"
  posTagger :: "string list \<Rightarrow> error + (string \<times> string) list"
  random :: "nat \<Rightarrow> real"

definition extractTextFromFile :: "world \<Rightarrow> string \<Rightarrow> string \<Rightarrow> error + string" where
  "extractTextFromFile w filePath fileType =
     (if fileType = ''application/pdf'' then readPdf w filePath
      else if fileType = ''application/vnd.openxmlformats-officedocument.wordprocessingml.document''
        then readDocx w filePath
      else if fileType = ''text/plain'' then readPlain w filePath
      else Inl UnsupportedFileType)"

text \<open>
  \<open>analyzeSentiment\<close>: \<open>sentimentApi\<close> gives the body of the answer as a list
  (a body that is not an array is a list of one), or \<open>None\<close> when the request fails.
\<close>

definition analyzeSentiment :: "world \<Rightarrow> string \<Rightarrow> sentiment" where
  "analyzeSentiment w text =
     (case sentimentApi w text of
        None \<Rightarrow> neutral_sentiment
      | Some results \<Rightarrow>
          (case results of
             [] \<Rightarrow> \<lparr>s_label = ''neutral'', s_score = Num 1, s_allResults = results\<rparr>
           | (l, s) # others \<Rightarrow> \<lparr>s_label = l, s_score = s, s_allResults = results\<rparr>))"

definition calculateReadability :: "world \<Rightarrow> string \<Rightarrow> error + readability" where
  "calculateReadability w text =
     (case sentenceTokenizer w text of
        Inl e \<Rightarrow> Inl e
      | Inr sentences \<Rightarrow>
          (case plainWordTokenizer w text of
             Inl e \<Rightarrow> Inl e
           | Inr ws \<Rightarrow>
               (case textStatistics w text of
                  Inl e \<Rightarrow> Inl e
                | Inr (fk, grade, difficult) \<Rightarrow>
                    Inr \<lparr>sentenceCount = length sentences,
                         wordCount = length ws,
                         avgSentenceLength =
                           Num (fl (real (length ws) / real (max (length sentences) 1))),
                         avgWordLength =
                           Num (fl (real (length (concat ws)) / real (max (length ws) 1))),
                         fleschScore = fk,
                         fleschGradeLevel = grade,
                         difficultWords = difficult\<rparr>)))"

definition extractImportantPhrases :: "world \<Rightarrow> string \<Rightarrow> error + string list" where
  "extractImportantPhrases w text =
     (case posTagger w (wordTokenizer w text) of
        Inl e \<Rightarrow> Inl e
      | Inr taggedWords \<Rightarrow> Inr (by_frequency (group_phrases (stopwordList w) [] taggedWords)))"

text \<open>The decimal form of a number in a template string.\<close>

function show_nat :: "nat \<Rightarrow> string" where
  "show_nat n =
     (if n < 10 then [char_of (48 + n)] else show_nat (n div 10) @ [char_of (48 + n mod 10)])"
  by pat_completeness auto
termination
  by (relation "measure id") auto

definition findStrengths :: "entities \<Rightarrow> string list \<Rightarrow> string list \<Rightarrow> string list" where
  "findStrengths ents kws phrases =
     (let found =
            (if length (skills ents) > 5
             then [''Strong technical skills ('' @ show_nat (length (skills ents)) @ '' skills identified)'']
             else [])
          @ (if length (companies ents) > 0
             then [''Professional experience at '' @ show_nat (length (companies ents)) @ '' companies'']
             else [])
          @ (if length (education ents) > 0
             then [''Strong educational background ('' @ show_nat (length (education ents)) @ '' institutions)'']
             else [])
          @ (if length kws > 10 then [''Rich in relevant keywords''] else [])
          @ (if length phrases > 5 then [''Well-articulated professional experience''] else [])
      in if length found > 0 then found else [''Well-structured resume''])"

definition findImprovements :: "sentiment \<Rightarrow> entities \<Rightarrow> readability \<Rightarrow> string list" where
  "findImprovements sent ents rd =
     (let found =
            (if s_label sent = ''anger'' \<or> s_label sent = ''sadness''
             then [''Consider more positive and professional language''] else [])
          @ (if length (skills ents) < 3 then [''Add more technical skills to stand out''] else [])
          @ (if length (companies ents) = 0
             then [''Include company names for better credibility''] else [])
          @ (if js_gt (avgSentenceLength rd) 25
             then [''Shorten long sentences for better readability''] else [])
          @ (if js_lt (fleschScore rd) 60
             then [''Simplify language to make resume more accessible''] else [])
      in if length found > 0 then found else [''Minor formatting suggestions''])"

text \<open>The value \<open>processResume\<close> resolves with: the dashboard data and the skills.\<close>

record analysis = dashboard +
  skillAssessment :: "skill list"

definition fallbackAnalysis :: analysis where
  "fallbackAnalysis =
     \<lparr>d_score = 70,
      strengths = [''Basic structure is good''],
      improvements = [''Could not perform full analysis - try again later''],
      d_keywords = [],
      importantPhrases = [],
      d_sentiment = \<lparr>s_label = ''neutral'', s_score = Num 1, s_allResults = []\<rparr>,
      d_readability =
        \<lparr>sentenceCount = 0, wordCount = 0, avgSentenceLength = Num 0, avgWordLength = Num 0,
         fleschScore = Num 0, fleschGradeLevel = Num 0, difficultWords = Num 0\<rparr>,
      d_entities = \<lparr>skills = [], companies = [], titles = [], education = [],
                    certifications = None\<rparr>,
      lastUpdated = None,
      skillAssessment = []\<rparr>"

text \<open>
  The body of the \<open>try\<close> block of \<open>processResume\<close>. The three analyses that
  \<open>Promise.all\<close> waits for do not depend on one another and only the entity
  extraction touches the store, so they are taken one after the other.

  The entity extraction can hand over a cached value that is no entity structure. What
  the steps behind it do with such a value depends on the value: reading a bucket of
  null, or the length of a bucket that is missing, throws a TypeError, and the model
  takes that path for every such value; a value that gets through them reaches the call
  of \<open>setSkillProgress\<close>, which throws a TypeError as well, after \<open>setDashboard\<close>
  has run. For such a value the model is right about what \<open>processResume\<close> resolves
  with and not about the dashboard entry of the store.

  \<open>setDashboard\<close> and \<open>setSkillProgress\<close> are taken out of the cache module
  (line 10) and called on their own (lines 60 and 61). \<open>setDashboard\<close> does not use
  \<open>this\<close>; \<open>setSkillProgress\<close> does, so its receiver is \<open>Detached\<close>.
\<close>

definition processResume_try ::
    "world \<Rightarrow> string \<Rightarrow> string \<Rightarrow> string \<Rightarrow> string \<Rightarrow> redis \<Rightarrow> (error + analysis) \<times> redis" where
  "processResume_try w filePath fileType userId now r =
     (case extractTextFromFile w filePath fileType of
        Inl e \<Rightarrow> (Inl e, r)
      | Inr resumeText \<Rightarrow>
          (let sentimentAnalysis = analyzeSentiment w resumeText
           in case extractEntities (nerApi w) (Some resumeText) r of
                (Inl e, r1) \<Rightarrow> (Inl e, r1)
              | (Inr Other_json, r1) \<Rightarrow> (Inl TypeError, r1)
              | (Inr (Structure ents), r1) \<Rightarrow>
                  (case calculateReadability w resumeText of
                     Inl e \<Rightarrow> (Inl e, r1)
                   | Inr rd \<Rightarrow>
                       (let kws = extractKeywords (wordTokenizer w) (stopwordList w) resumeText
                        in case extractImportantPhrases w resumeText of
                             Inl e \<Rightarrow> (Inl e, r1)
                           | Inr phrases \<Rightarrow>
                               (let score = calculateScore sentimentAnalysis ents rd (length kws);
                                    skillAssessment0 = assessSkills (random w) now (skills ents);
                                    dashboardData =
                                      \<lparr>d_score = math_round score,
                                       strengths = findStrengths ents kws phrases,
                                       improvements = findImprovements sentimentAnalysis ents rd,
                                       d_keywords = take 20 kws,
                                       importantPhrases = take 10 phrases,
                                       d_sentiment = sentimentAnalysis,
                                       d_readability = rd,
                                       d_entities = ents,
                                       lastUpdated = Some now\<rparr>
                                in case setDashboard userId dashboardData now r1 of
                                     (Inl e, r2) \<Rightarrow> (Inl e, r2)
                                   | (Inr done, r2) \<Rightarrow>
                                       (case setSkillProgress_from Detached userId skillAssessment0 r2 of
                                          (Inl e, r3) \<Rightarrow> (Inl e, r3)
                                        | (Inr done', r3) \<Rightarrow>
                                            (Inr (dashboard.extend dashboardData
                                                    (analysis.fields skillAssessment0)), r3)))))))"

text \<open>\<open>processResume\<close>: the \<open>try\<close> block with its \<open>catch\<close>.\<close>

definition processResume ::
    "world \<Rightarrow> string \<Rightarrow> string \<Rightarrow> string \<Rightarrow> string \<Rightarrow> redis \<Rightarrow> (error + analysis) \<times> redis" where
  "processResume w filePath fileType userId now r =
     (case processResume_try w filePath fileType userId now r of
        (Inl e, r1) \<Rightarrow> (Inr fallbackAnalysis, r1)
      | (Inr result, r1) \<Rightarrow> (Inr result, r1))"

section \<open>Notions of the specification and concrete inputs\<close>

text \<open>\<open>await this.getSkillProgress(userId) || []\<close> on a store that answers.\<close>

definition cached_skills :: "redis \<Rightarrow> string \<Rightarrow> skill list" where
  "cached_skills r userId = (case skills_ns r userId of None \<Rightarrow> [] | Some xs \<Rightarrow> xs)"

text \<open>
  The example of the specification for the merge: the cached record
  \<open>{name: "go", progress: 40, lastPracticed: T0}\<close>, the incoming record
  \<open>{name: "go", level: 70}\<close>, and a store that holds the cached record for the
  user \<open>u\<close>.
\<close>

definition go_cached :: skill where
  "go_cached = \<lparr>name = ''go'', level = None, targetLevel = None, category = None,
                lastPracticed = Some ''T0'', progress = Some 40\<rparr>"

definition go_incoming :: skill where
  "go_incoming = \<lparr>name = ''go'', level = Some 70, targetLevel = None, category = None,
                  lastPracticed = None, progress = None\<rparr>"

definition go_store :: redis where
  "go_store = empty_redis\<lparr>skills_ns := [''u'' \<mapsto> [go_cached]]\<rparr>"







definition article_tagged :: "string \<Rightarrow> int option \<Rightarrow> jsnum \<Rightarrow> article" where
  "article_tagged tg published minutes =
     \<lparr>a_title = ''title'', a_url = ''url'', a_description = ''description'', a_tag = tg,
      a_image = ''image'', a_publishedAt = published, a_readingTime = minutes,
      a_source = ''DEV Community''\<rparr>"


text \<open>
  A text with a word that is the name of a property every object inherits, a short list
  of stop words, and the words of a text that pass the filter of \<open>extractKeywords\<close>.
\<close>

definition sample_stopwords :: "string list" where
  "sample_stopwords = [''about'', ''with'', ''that'', ''this'', ''from'']"

definition constructor_text :: string where
  "constructor_text = ''constructor alpha alpha''"

definition filtered_words :: "(string \<Rightarrow> string list) \<Rightarrow> string list \<Rightarrow> string \<Rightarrow> string list" where
  "filtered_words tokenize stopwords text =
     filter (keep_word stopwords) (tokenize (toLowerCase text))"

text \<open>
  What the specification asks of an entity structure: every bucket is there, has no
  string twice, and holds strings of more than one character that
  \<open>cleanEntityText\<close> leaves as they are. A value is well formed when it is such a
  structure, and the store when every parsable entry under \<open>ner:\<close> is.
\<close>

definition clean_nontrivial :: "string \<Rightarrow> bool" where
  "clean_nontrivial s = (length s > 1 \<and> cleanEntityText s = s)"

definition good_bucket :: "string list \<Rightarrow> bool" where
  "good_bucket xs = (distinct xs \<and> list_all clean_nontrivial xs)"

definition well_formed :: "entities \<Rightarrow> bool" where
  "well_formed e =
     (good_bucket (skills e) \<and> good_bucket (companies e) \<and> good_bucket (titles e)
      \<and> good_bucket (education e)
      \<and> (case certifications e of None \<Rightarrow> False | Some xs \<Rightarrow> good_bucket xs))"

definition value_well_formed :: "ner_value \<Rightarrow> bool" where
  "value_well_formed v = (case v of Structure e \<Rightarrow> well_formed e | Other_json \<Rightarrow> False)"

definition cache_well_formed :: "redis \<Rightarrow> bool" where
  "cache_well_formed r = (\<forall>k v. ner_ns r k = Some (Cached v) \<longrightarrow> value_well_formed v)"

text \<open>
  The text is no string, or it is empty or blank. The call to Redis number \<open>n\<close> from
  now, counted from 0, goes through; the next call, which is the cache lookup of
  \<open>extractEntities\<close>, is rejected.
\<close>

definition invalid_input :: "string option \<Rightarrow> bool" where
  "invalid_input input = (case input of None \<Rightarrow> True | Some t \<Rightarrow> trim t = [])"

definition call_ok :: "redis \<Rightarrow> nat \<Rightarrow> bool" where
  "call_ok r n = (case drop n (faults r) of [] \<Rightarrow> True | ok # rest \<Rightarrow> ok)"

definition lookup_rejected :: "redis \<Rightarrow> bool" where
  "lookup_rejected r = (case faults r of [] \<Rightarrow> False | ok # rest \<Rightarrow> \<not> ok)"

text \<open>
  The states of the cache entry of a text that a lookup can find: a string that parses
  (a hit), a string that does not parse (which the program deletes before it goes on),
  and no entry. The request to the inference service is made for a valid text when the
  lookup goes through and finds no entry, or finds a string that does not parse and the
  deletion goes through; the write of the result is then the second or the third call
  to Redis.
\<close>

definition cache_hit :: "string option \<Rightarrow> redis \<Rightarrow> ner_value \<Rightarrow> bool" where
  "cache_hit input r parsed =
     (case input of
        None \<Rightarrow> False
      | Some t \<Rightarrow> \<not> invalid_input input \<and> \<not> lookup_rejected r
                  \<and> ner_ns r (hashText t) = Some (Cached parsed))"

definition deletion_rejected :: "string option \<Rightarrow> redis \<Rightarrow> bool" where
  "deletion_rejected input r =
     (case input of
        None \<Rightarrow> False
      | Some t \<Rightarrow> \<not> invalid_input input \<and> \<not> lookup_rejected r
                  \<and> ner_ns r (hashText t) = Some Corrupt \<and> \<not> call_ok r 1)"

definition request_made :: "string option \<Rightarrow> redis \<Rightarrow> string \<Rightarrow> bool" where
  "request_made input r t =
     (input = Some t \<and> \<not> invalid_input input \<and> \<not> lookup_rejected r
      \<and> (case ner_ns r (hashText t) of
            None \<Rightarrow> True
          | Some Corrupt \<Rightarrow> call_ok r 1
          | Some (Cached parsed) \<Rightarrow> False))"

definition write_ok :: "redis \<Rightarrow> string \<Rightarrow> bool" where
  "write_ok r t = (if ner_ns r (hashText t) = None then call_ok r 1 else call_ok r 2)"

text \<open>A string of two or more letters.\<close>

definition letters_name :: "string \<Rightarrow> bool" where
  "letters_name s = (length s > 1 \<and> (\<forall>c \<in> set s. is_letter c))"

text \<open>The elements of the answer when it is an array.\<close>

definition reply_items :: "ner_reply \<Rightarrow> ner_item list option" where
  "reply_items reply = (case reply of Items items \<Rightarrow> Some items | other \<Rightarrow> None)"

definition sample_text :: string where
  "sample_text = ''javascript at Google''"

text \<open>
  The store after a call to Redis that writes nothing. Stores for the sample text: one
  that holds the string \<open>null\<close> under its key, one that holds a string that does
  not parse, and the stores that reject the first call or the second. An answer of the
  inference service with a subword marker, a special character, a company and an
  element that is no object.
\<close>

definition after_call :: "redis \<Rightarrow> redis" where
  "after_call r = r\<lparr>faults := tl (faults r)\<rparr>"

definition null_store :: redis where
  "null_store = empty_redis\<lparr>ner_ns := [hashText sample_text \<mapsto> Cached Other_json]\<rparr>"

definition corrupt_store :: redis where
  "corrupt_store = empty_redis\<lparr>ner_ns := [hashText sample_text \<mapsto> Corrupt]\<rparr>"

definition down_store :: redis where
  "down_store = empty_redis\<lparr>faults := [False]\<rparr>"

definition second_fails :: "redis \<Rightarrow> redis" where
  "second_fails r = r\<lparr>faults := [True, False]\<rparr>"

definition sample_items :: "ner_item list" where
  "sample_items = [Item ''##React!'' ''B-TECH'', Item ''Google'' ''B-ORG'', Other,
                   Item ''React'' ''I-TECH'']"

text \<open>
  A table of counts is right for a list of words: every word of the list has its
  number of occurrences as its count, under one key, and there is no other key.
\<close>

definition counted :: "(string \<times> freq) list \<Rightarrow> string list \<Rightarrow> bool" where
  "counted props ws =
     (distinct (map fst props)
      \<and> (\<forall>w. map_of props w = (if w \<in> set ws then Some (Count (occurrences ws w)) else None)))"

section \<open>Properties of the score\<close>

lemma if_add: "(if c then (x::real) + d else x) = x + (if c then d else 0)"
  by simp

lemma calculateScore_unfold:
  "calculateScore sent ents rd k =
     min (max (70 + sentiment_bonus sent + readability_bonus rd
                + min (real (length (skills ents)) * 2) 20
                + min (real (length (companies ents)) * 1) 10
                + min (real k * (1 / 2)) 10) 0) 100"
  unfolding calculateScore_def sentiment_bonus_def readability_bonus_def Let_def if_add
  by (simp only: add.assoc)

lemma sentiment_bonus_nat: "\<exists>a::nat. sentiment_bonus sent = real a"
proof (cases "sentiment_bonus sent = 0")
  case True
  then show ?thesis by (intro exI [of _ 0]) simp
next
  case False
  then have "sentiment_bonus sent = real 10" by (simp add: sentiment_bonus_def split: if_splits)
  then show ?thesis by blast
qed

lemma readability_bonus_nat: "\<exists>b::nat. readability_bonus rd = real b"
proof -
  have "readability_bonus rd =
          real ((if js_gt (fleschScore rd) 60 then 5 else 0)
                + (if js_lt (avgSentenceLength rd) 20 then 5 else 0))"
    by (simp add: readability_bonus_def)
  then show ?thesis by blast
qed

lemma skill_points: "min (real n * 2) 20 = real (min (2 * n) 20)"
  by (simp add: min_def)

lemma company_points: "min (real m * 1) 10 = real (min m 10)"
  by (simp add: min_def)

lemma keyword_points: "min (real k * (1 / 2)) 10 = real (min k 20) / 2"
  by (simp add: min_def)

lemma raw_score_halves:
  "\<exists>N::nat. 140 \<le> N \<and>
     70 + sentiment_bonus sent + readability_bonus rd
        + min (real n * 2) 20 + min (real m * 1) 10 + min (real k * (1 / 2)) 10 = real N / 2"
proof -
  obtain a :: nat where a: "sentiment_bonus sent = real a"
    using sentiment_bonus_nat by blast
  obtain b :: nat where b: "readability_bonus rd = real b"
    using readability_bonus_nat by blast
  let ?N = "140 + 2 * a + 2 * b + 2 * min (2 * n) 20 + 2 * min m 10 + min k 20"
  have "70 + real a + real b + real (min (2 * n) 20) + real (min m 10) + real (min k 20) / 2
        = real ?N / 2"
    by simp
  then show ?thesis
    unfolding a b skill_points company_points keyword_points
    by (intro exI [of _ ?N]) simp
qed

lemma clamp_halves: "min (max (real N / 2) 0) 100 = real (min N 200) / 2"
  by (simp add: min_def max_def)

lemma calculateScore_halves:
  "\<exists>N::nat. 140 \<le> N \<and> calculateScore sent ents rd k = real (min N 200) / 2"
proof -
  obtain N :: nat where N: "140 \<le> N"
    "70 + sentiment_bonus sent + readability_bonus rd
        + min (real (length (skills ents)) * 2) 20 + min (real (length (companies ents)) * 1) 10
        + min (real k * (1 / 2)) 10 = real N / 2"
    using raw_score_halves by blast
  have "calculateScore sent ents rd k = real (min N 200) / 2"
    unfolding calculateScore_unfold N(2) by (rule clamp_halves)
  with N(1) show ?thesis by blast
qed

lemma score_spec_unfold:
  "score_spec sent ents rd k =
     min (max (70 + sentiment_bonus sent + readability_bonus rd
                + min (real (length (skills ents)) * 2) 20
                + min (real (length (companies ents)) * 1) 10
                + min (real k * (1 / 2)) 10) 0) 100"
  by (simp add: score_spec_def min.commute max.commute mult.commute)

text \<open>
  Claim C4, as amended. For every sentiment, entity structure, readability record and
  keyword count, \<open>calculateScore\<close> returns the value of the formula of the
  specification: 70, plus 10 for the label \<open>joy\<close> with a confidence above 0.7, plus 5
  for a Flesch score above 60, plus 5 for an average sentence length below 20, plus two
  points for each skill up to 20, one for each company up to 10 and half a point for each
  keyword up to 10, clamped to the interval from 0 to 100. The value is a multiple of
  one half.
\<close>

theorem calculateScore_formula:
  "calculateScore sent ents rd k = score_spec sent ents rd k
   \<and> 0 \<le> calculateScore sent ents rd k \<and> calculateScore sent ents rd k \<le> 100
   \<and> 2 * calculateScore sent ents rd k \<in> \<int>"
proof -
  obtain N :: nat where N: "calculateScore sent ents rd k = real (min N 200) / 2"
    using calculateScore_halves by blast
  have eq: "calculateScore sent ents rd k = score_spec sent ents rd k"
    by (simp only: calculateScore_unfold score_spec_unfold)
  have lo: "0 \<le> calculateScore sent ents rd k" unfolding N by simp
  have hi: "calculateScore sent ents rd k \<le> 100" unfolding N by simp
  have half: "2 * calculateScore sent ents rd k \<in> \<int>" unfolding N by simp
  from eq lo hi half show ?thesis by blast
qed

text \<open>
  Claim C4 as stated fails: with one keyword, a neutral sentiment, no entity and the
  readability record of zeros the score is 75.5, which is not an integer.
\<close>

theorem calculateScore_not_integer:
  "calculateScore neutral_sentiment no_entities zero_readability 1 = 151 / 2
   \<and> calculateScore neutral_sentiment no_entities zero_readability 1 \<notin> \<int>"
  by (simp add: calculateScore_def neutral_sentiment_def no_entities_def zero_readability_def)

text \<open>
  Claim C9. The score is never below the base of 70 and never above 100, whatever the
  analysers return.
\<close>

theorem calculateScore_at_least_base:
  "70 \<le> calculateScore sent ents rd k \<and> calculateScore sent ents rd k \<le> 100"
proof -
  obtain N :: nat where N: "140 \<le> N" "calculateScore sent ents rd k = real (min N 200) / 2"
    using calculateScore_halves by blast
  have "140 \<le> min N 200" using N(1) by simp
  then have "140 \<le> real (min N 200)" by (metis of_nat_le_iff of_nat_numeral)
  then show ?thesis unfolding N(2) by simp
qed

section \<open>Properties of the skill assessment\<close>

text \<open>
  Claim C6. Every record that \<open>assessSkills\<close> returns belongs to one of the given
  names, has the level that \<open>calculateSkillLevel\<close> gives for that name and its
  random draw, has a target level of \<open>min (level + 20) 100\<close>, and has progress 0.
\<close>

theorem assessSkills_targetLevel:
  assumes "s \<in> set (assessSkills rnd now names)"
  shows "\<exists>i lvl. i < length names \<and> name s = names ! i
           \<and> lvl = real_of_int (calculateSkillLevel (rnd i) (names ! i))
           \<and> level s = Some lvl
           \<and> targetLevel s = Some (min (lvl + 20) 100)
           \<and> progress s = Some 0"
proof -
  from assms obtain i where i: "i < length names" and s: "s = assessSkill (rnd i) now (names ! i)"
    by (auto simp: assessSkills_def in_set_enumerate_eq)
  let ?l = "calculateSkillLevel (rnd i) (names ! i)"
  have "targetLevel s = Some (min (real_of_int ?l + 20) 100)"
    unfolding s by (simp add: assessSkill_def Let_def min_def)
  moreover have "level s = Some (real_of_int ?l)" "progress s = Some 0" "name s = names ! i"
    unfolding s by (simp_all add: assessSkill_def Let_def)
  ultimately show ?thesis using i by blast
qed

text \<open>
  Claim C6 at the skill \<open>go\<close> with the draw 0.5: the level is 67 and the target 87.
\<close>

theorem assessSkills_targetLevel_example:
  "assessSkill (1 / 2) ''T'' ''go'' \<in> set (assessSkills (\<lambda>i. 1 / 2) ''T'' [''go''])
   \<and> level (assessSkill (1 / 2) ''T'' ''go'') = Some 67
   \<and> targetLevel (assessSkill (1 / 2) ''T'' ''go'') = Some 87
   \<and> progress (assessSkill (1 / 2) ''T'' ''go'') = Some 0"
proof -
  have mem: "assessSkill (1 / 2) ''T'' ''go'' \<in> set (assessSkills (\<lambda>i. 1 / 2) ''T'' [''go''])"
    by (simp add: assessSkills_def enumerate_eq_zip)
  have "fl 15 = 15" by code_simp
  then have lvl: "calculateSkillLevel (1 / 2) ''go'' = 67"
    by (simp add: calculateSkillLevel_def)
  from assessSkills_targetLevel [OF mem] lvl mem show ?thesis by auto
qed

section \<open>Properties of the cache layer\<close>

lemma redis_call_no_faults: "faults r = [] \<Longrightarrow> redis_call r = (True, r)"
  by (simp add: redis_call_def)

lemma redis_call_frame:
  assumes "redis_call r = (ok, r1)"
  shows "dashboard_ns r1 = dashboard_ns r" "skills_ns r1 = skills_ns r"
  using assms by (auto simp: redis_call_def split: list.splits)

lemma getSkillProgress_no_faults:
  "faults r = [] \<Longrightarrow> getSkillProgress userId r = (Inr (skills_ns r userId), r)"
  by (simp add: getSkillProgress_def redis_call_no_faults)

lemma setSkillProgress_no_faults:
  "faults r = [] \<Longrightarrow>
   setSkillProgress userId incoming r =
     (Inr True,
      r\<lparr>skills_ns := (skills_ns r)(userId \<mapsto>
            map (mergeSkill (case skills_ns r userId of None \<Rightarrow> [] | Some xs \<Rightarrow> xs)) incoming)\<rparr>)"
  by (simp add: setSkillProgress_def getSkillProgress_no_faults redis_call_no_faults)

lemma mergeSkill_fields:
  "name (mergeSkill existing n) = name n"
  "level (mergeSkill existing n) = level n"
  "targetLevel (mergeSkill existing n) = targetLevel n"
  "category (mergeSkill existing n) = category n"
  by (simp_all add: mergeSkill_def split: option.splits)

lemma mergeSkill_match:
  "find (\<lambda>s. name s = name n) existing = Some e \<Longrightarrow>
   progress (mergeSkill existing n) = progress e \<and> lastPracticed (mergeSkill existing n) = lastPracticed e"
  by (simp add: mergeSkill_def)

lemma mergeSkill_no_match:
  "find (\<lambda>s. name s = name n) existing = None \<Longrightarrow> mergeSkill existing n = n"
  by (simp add: mergeSkill_def)

lemma setSkillProgress_written:
  assumes "setSkillProgress userId incoming r = (Inr b, r')"
  shows "skills_ns r' userId = Some (map (mergeSkill (cached_skills r userId)) incoming)"
proof -
  obtain ok1 r1 where c1: "redis_call r = (ok1, r1)" by (cases "redis_call r")
  obtain ok2 r2 where c2: "redis_call r1 = (ok2, r2)" by (cases "redis_call r1")
  have s1: "skills_ns r1 = skills_ns r" using c1 by (rule redis_call_frame)
  from assms c1 c2 have "ok1" "ok2"
    and r': "r' = r2\<lparr>skills_ns := (skills_ns r2)(userId \<mapsto>
                 map (mergeSkill (case skills_ns r1 userId of None \<Rightarrow> [] | Some xs \<Rightarrow> xs)) incoming)\<rparr>"
    by (auto simp: setSkillProgress_def getSkillProgress_def Let_def split: if_splits)
  show ?thesis unfolding r' s1 by (simp add: cached_skills_def)
qed

text \<open>
  Claim C3. Whenever \<open>setSkillProgress\<close> writes, it stores one record
  for each incoming record, in the same order. The stored record has the name, level,
  category and target level of the incoming one. When a cached record has the same
  name, the stored record has the progress and the time of last practice of the first
  such cached record; otherwise it is the incoming record as it is.
\<close>

theorem setSkillProgress_merge:
  assumes "setSkillProgress userId incoming r = (Inr b, r')"
  shows "\<exists>stored.
           skills_ns r' userId = Some stored
         \<and> length stored = length incoming
         \<and> (\<forall>i < length incoming.
               name (stored ! i) = name (incoming ! i)
             \<and> level (stored ! i) = level (incoming ! i)
             \<and> category (stored ! i) = category (incoming ! i)
             \<and> targetLevel (stored ! i) = targetLevel (incoming ! i)
             \<and> (case find (\<lambda>s. name s = name (incoming ! i)) (cached_skills r userId) of
                  Some e \<Rightarrow> progress (stored ! i) = progress e
                              \<and> lastPracticed (stored ! i) = lastPracticed e
                | None \<Rightarrow> stored ! i = incoming ! i))"
proof -
  let ?existing = "cached_skills r userId"
  let ?stored = "map (mergeSkill ?existing) incoming"
  have look: "skills_ns r' userId = Some ?stored"
    using assms by (rule setSkillProgress_written)
  have each: "\<forall>i < length incoming.
               name (?stored ! i) = name (incoming ! i)
             \<and> level (?stored ! i) = level (incoming ! i)
             \<and> category (?stored ! i) = category (incoming ! i)
             \<and> targetLevel (?stored ! i) = targetLevel (incoming ! i)
             \<and> (case find (\<lambda>s. name s = name (incoming ! i)) ?existing of
                  Some e \<Rightarrow> progress (?stored ! i) = progress e
                              \<and> lastPracticed (?stored ! i) = lastPracticed e
                | None \<Rightarrow> ?stored ! i = incoming ! i)"
    by (auto simp: mergeSkill_fields mergeSkill_match mergeSkill_no_match split: option.splits)
  from look each show ?thesis
    by (intro exI [of _ ?stored]) simp
qed

text \<open>
  Claim C3 at the example of the specification: with
  \<open>{name: "go", progress: 40, lastPracticed: T0}\<close> in the cache and
  \<open>{name: "go", level: 70}\<close> incoming, the stored record is
  \<open>{name: "go", level: 70, progress: 40, lastPracticed: T0}\<close>.
\<close>

theorem setSkillProgress_merge_example:
  "fst (setSkillProgress ''u'' [go_incoming] go_store) = Inr True
   \<and> skills_ns (snd (setSkillProgress ''u'' [go_incoming] go_store)) ''u''
       = Some [\<lparr>name = ''go'', level = Some 70, targetLevel = None, category = None,
                lastPracticed = Some ''T0'', progress = Some 40\<rparr>]"
proof -
  have nf: "faults go_store = []" by (simp add: go_store_def empty_redis_def)
  obtain r' where run: "setSkillProgress ''u'' [go_incoming] go_store = (Inr True, r')"
    using setSkillProgress_no_faults [OF nf] by simp
  from setSkillProgress_merge [OF run]
  obtain stored where look: "skills_ns r' ''u'' = Some stored" and len: "length stored = 1"
    and props: "name (stored ! 0) = name go_incoming" "level (stored ! 0) = level go_incoming"
      "category (stored ! 0) = category go_incoming" "targetLevel (stored ! 0) = targetLevel go_incoming"
      "progress (stored ! 0) = progress go_cached" "lastPracticed (stored ! 0) = lastPracticed go_cached"
    by (auto simp: cached_skills_def go_store_def go_cached_def go_incoming_def empty_redis_def)
  from len obtain m where st: "stored = [m]" by (cases stored) auto
  have "m = \<lparr>name = ''go'', level = Some 70, targetLevel = None, category = None,
                lastPracticed = Some ''T0'', progress = Some 40\<rparr>"
    using props unfolding st by (cases m) (simp add: go_cached_def go_incoming_def)
  with run look st show ?thesis by simp
qed

lemma fl_fifty: "fl 50 = 50"
  by code_simp

text \<open>
  Claim C1 fails on the code. With \<open>{name: "go", progress: 40, lastPracticed: T0}\<close>
  in the cache, \<open>updateSkillProgress(u, "go", 10)\<close> returns the record with progress
  50 and the new time stamp, but it writes through \<open>setSkillProgress\<close>, whose merge
  puts the cached progress and time stamp back: the store is left as it was and the next
  \<open>getSkillProgress\<close> returns progress 40.
\<close>

theorem updateSkillProgress_not_written:
  "fst (updateSkillProgress ''u'' ''go'' 10 ''T1'' go_store)
     = Inr [go_cached\<lparr>progress := Some 50, lastPracticed := Some ''T1''\<rparr>]
   \<and> snd (updateSkillProgress ''u'' ''go'' 10 ''T1'' go_store) = go_store
   \<and> fst (getSkillProgress ''u'' (snd (updateSkillProgress ''u'' ''go'' 10 ''T1'' go_store)))
     = Inr (Some [go_cached])"
proof -
  have nf: "faults go_store = []" by (simp add: go_store_def empty_redis_def)
  have look: "skills_ns go_store ''u'' = Some [go_cached]" by (simp add: go_store_def)
  have run: "updateSkillProgress ''u'' ''go'' 10 ''T1'' go_store
       = (Inr [go_cached\<lparr>progress := Some 50, lastPracticed := Some ''T1''\<rparr>],
          go_store\<lparr>skills_ns := (skills_ns go_store)(''u'' \<mapsto> [go_cached])\<rparr>)"
    by (simp add: updateSkillProgress_def getSkillProgress_no_faults [OF nf]
        setSkillProgress_no_faults [OF nf] look bumpSkill_def mergeSkill_def go_cached_def
        fl_fifty)
  have same: "go_store\<lparr>skills_ns := (skills_ns go_store)(''u'' \<mapsto> [go_cached])\<rparr> = go_store"
    by (simp add: go_store_def)
  show ?thesis
    unfolding run same using look by (simp add: getSkillProgress_no_faults [OF nf])
qed

text \<open>
  The same for every store that answers and holds records with distinct names: the
  bumped set is returned and the store does not change.
\<close>

lemma find_own_name:
  "distinct (map name xs) \<Longrightarrow> x \<in> set xs \<Longrightarrow> find (\<lambda>s. name s = name x) xs = Some x"
proof (induction xs)
  case Nil
  then show ?case by simp
next
  case (Cons y ys)
  then show ?case by (cases "name y = name x") (auto simp: rev_image_eqI)
qed

lemma bumpSkill_name: "name (bumpSkill k d now s) = name s"
  by (simp add: bumpSkill_def Let_def)

lemma merge_undoes_bump:
  assumes "distinct (map name xs)" "x \<in> set xs"
  shows "mergeSkill xs (bumpSkill k d now x) = x"
proof -
  have "find (\<lambda>s. name s = name (bumpSkill k d now x)) xs = Some x"
    using assms by (simp add: bumpSkill_name find_own_name)
  then show ?thesis by (simp add: mergeSkill_def bumpSkill_def Let_def)
qed

lemma updateSkillProgress_leaves_cache:
  assumes "faults r = []" "skills_ns r userId = Some xs" "distinct (map name xs)"
  shows "updateSkillProgress userId k d now r = (Inr (map (bumpSkill k d now) xs), r)"
proof -
  have "map (mergeSkill xs) (map (bumpSkill k d now) xs) = xs"
    using assms(3) by (simp add: map_idI merge_undoes_bump)
  moreover have "r\<lparr>skills_ns := (skills_ns r)(userId \<mapsto> xs)\<rparr> = r"
    using assms(2) by (simp add: fun_upd_idem)
  ultimately show ?thesis
    using assms(1,2)
    by (simp add: updateSkillProgress_def getSkillProgress_no_faults setSkillProgress_no_faults)
qed

section \<open>Properties of the job results\<close>

lemma result_key_differs: "result_key userId jobId \<noteq> jobId"
proof
  assume "result_key userId jobId = jobId"
  then have "length (result_key userId jobId) = length jobId" by simp
  then show False by (simp add: result_key_def)
qed

text \<open>
  Claim C2 fails on the code. The processor writes the terminal payload of job 1 of the
  user \<open>anonymous\<close> under \<open>resume:anonymous:1\<close>; the retrieval of job 1 reads
  \<open>resume:1\<close> and answers that the analysis is not found.
\<close>

theorem job_result_not_found:
  "resume_ns (snd (process_job ''anonymous'' ''1'' (Inr ''result'') ''T'' empty_redis)) ''anonymous:1''
     = Some (Completed ''result'' ''T'')
   \<and> fst (get_resume_analysis ''1''
            (snd (process_job ''anonymous'' ''1'' (Inr ''result'') ''T'' empty_redis))) = NotFound"
  by (simp add: process_job_def get_resume_analysis_def invalidateAllUserCaches_def
      redis_call_def result_key_def empty_redis_def Let_def)

text \<open>
  The same for every job, every outcome and every store that answers: unless the key
  \<open>resume:${jobId}\<close> was there before, the retrieval of the job finds nothing after
  the processor has written its payload.
\<close>

lemma job_result_never_found:
  assumes "faults r = []" "resume_ns r jobId = None"
  shows "fst (get_resume_analysis jobId (snd (process_job userId jobId outcome now r))) = NotFound"
  using assms result_key_differs [of userId jobId]
  by (cases outcome)
     (simp_all add: process_job_def job_failed_def get_resume_analysis_def
        invalidateAllUserCaches_def redis_call_def Let_def)

section \<open>Properties of the keywords\<close>

lemma set_insert_sorted: "set (insert_sorted after x ys) = insert x (set ys)"
  by (induction ys) auto

lemma set_js_sort: "set (js_sort after xs) = set xs"
  by (induction xs) (simp_all add: js_sort_def set_insert_sorted)

lemma set_object_entries: "set (object_entries props) = set props"
  by (auto simp: object_entries_def set_js_sort)

lemma keys_set_prop: "set (map fst (set_prop k v props)) = insert k (set (map fst props))"
proof (induction props)
  case Nil
  then show ?case by simp
next
  case (Cons p props)
  obtain k' v' where p: "p = (k', v')" by (cases p)
  show ?case
  proof (cases "k' = k")
    case True
    then show ?thesis unfolding p by simp
  next
    case False
    then have "set (map fst (set_prop k v (p # props))) = insert k' (set (map fst (set_prop k v props)))"
      unfolding p by simp
    also have "\<dots> = insert k' (insert k (set (map fst props)))"
      by (simp only: Cons.IH)
    finally show ?thesis unfolding p by auto
  qed
qed

lemma keys_bump_word: "set (map fst (bump_word props w)) \<subseteq> insert w (set (map fst props))"
proof (cases "map_of props w")
  case None
  then show ?thesis
    by (simp add: bump_word_def keys_set_prop del: set_map) blast
next
  case (Some v)
  then show ?thesis
    by (cases v) (simp_all add: bump_word_def keys_set_prop del: set_map)
qed

lemma keys_count_words:
  "set (map fst (foldl bump_word props ws)) \<subseteq> set (map fst props) \<union> set ws"
proof (induction ws arbitrary: props)
  case Nil
  then show ?case by simp
next
  case (Cons w ws)
  have "set (map fst (foldl bump_word (bump_word props w) ws))
          \<subseteq> set (map fst (bump_word props w)) \<union> set ws"
    by (rule Cons.IH)
  with keys_bump_word [of props w] show ?case
    by (simp del: set_map) blast
qed

lemma by_frequency_subset: "set (by_frequency ws) \<subseteq> set ws"
proof -
  have "set (by_frequency ws) = set (map fst (foldl bump_word [] ws))"
    by (simp add: by_frequency_def set_js_sort set_object_entries)
  with keys_count_words [of "[]" ws] show ?thesis by simp
qed

text \<open>
  Every keyword is a token of the text in lower case, is longer than three characters,
  is no stop word and has no digit.
\<close>

lemma extractKeywords_tokens:
  assumes "w \<in> set (extractKeywords tokenize stopwords text)"
  shows "w \<in> set (tokenize (toLowerCase text))
       \<and> length w > 3 \<and> w \<notin> set stopwords \<and> \<not> list_ex is_digit w"
proof -
  from assms have "w \<in> set (by_frequency (filter (keep_word stopwords) (tokenize (toLowerCase text))))"
    by (simp add: extractKeywords_def Let_def)
  with by_frequency_subset have "w \<in> set (filter (keep_word stopwords) (tokenize (toLowerCase text)))"
    by blast
  then show ?thesis by (simp add: keep_word_def)
qed

lemma lower_char_idem: "lower_char (lower_char c) = lower_char c"
  by (auto simp: lower_char_def Let_def)

lemma toLowerCase_fixed:
  assumes "set w \<subseteq> set (toLowerCase t)"
  shows "toLowerCase w = w"
proof -
  have "\<And>c. c \<in> set w \<Longrightarrow> lower_char c = c"
  proof -
    fix c assume "c \<in> set w"
    with assms obtain d where "c = lower_char d" by (auto simp: toLowerCase_def)
    then show "lower_char c = c" by (simp add: lower_char_idem)
  qed
  then show ?thesis by (simp add: toLowerCase_def map_idI)
qed

text \<open>
  With a tokenizer that only cuts the text into pieces, as the one of \<open>natural\<close>
  does, every keyword is in lower case.
\<close>

lemma extractKeywords_lowercase:
  assumes "\<And>t w. w \<in> set (tokenize t) \<Longrightarrow> set w \<subseteq> set t"
    and "w \<in> set (extractKeywords tokenize stopwords text)"
  shows "toLowerCase w = w"
proof -
  from assms(2) have "w \<in> set (tokenize (toLowerCase text))"
    using extractKeywords_tokens by blast
  then have "set w \<subseteq> set (toLowerCase text)" by (rule assms(1))
  then show ?thesis by (rule toLowerCase_fixed)
qed

lemma split_words_chars:
  "w \<in> set (split_words cur s) \<Longrightarrow> set w \<subseteq> set cur \<union> set s"
  by (induction cur s rule: split_words.induct) (auto split: if_splits)

lemma word_tokenizer_chars: "w \<in> set (word_tokenizer t) \<Longrightarrow> set w \<subseteq> set t"
  using split_words_chars [of w "[]" t] by (simp add: word_tokenizer_def)

lemma descending_by_Cons:
  "descending_by f (x # ys) = ((ys = [] \<or> f x \<ge> f (hd ys)) \<and> descending_by f ys)"
  by (cases ys) simp_all

lemma hd_insert_sorted:
  "hd (insert_sorted after x ys) = (if ys \<noteq> [] \<and> after x (hd ys) then hd ys else x)"
  by (cases ys) simp_all

lemma insert_sorted_not_Nil: "insert_sorted after x ys \<noteq> []"
  by (cases ys) simp_all

lemma descending_insert_sorted:
  assumes "\<And>b. b \<in> set ys \<Longrightarrow> after x b = (f b > f x)"
    and "descending_by f ys"
  shows "descending_by f (insert_sorted after x ys)"
  using assms
proof (induction ys)
  case Nil
  then show ?case by simp
next
  case (Cons y ys)
  show ?case
  proof (cases "after x y")
    case False
    then have "f x \<ge> f y" using Cons.prems(1) [of y] by simp
    with False Cons.prems(2) show ?thesis by simp
  next
    case True
    then have xy: "f y > f x" using Cons.prems(1) [of y] by simp
    have rest: "descending_by f (insert_sorted after x ys)"
      using Cons.prems by (intro Cons.IH) (simp_all add: descending_by_Cons)
    have "f y \<ge> f (hd (insert_sorted after x ys))"
      using xy Cons.prems(2) by (auto simp: hd_insert_sorted descending_by_Cons)
    with True rest show ?thesis
      by (simp add: descending_by_Cons insert_sorted_not_Nil)
  qed
qed

lemma descending_js_sort:
  assumes "\<And>a b. a \<in> set xs \<Longrightarrow> b \<in> set xs \<Longrightarrow> after a b = (f b > f a)"
  shows "descending_by f (js_sort after xs)"
  using assms
proof (induction xs)
  case Nil
  then show ?case by (simp add: js_sort_def)
next
  case (Cons x xs)
  have ih: "descending_by f (js_sort after xs)" using Cons.prems by (intro Cons.IH) simp_all
  have "descending_by f (insert_sorted after x (js_sort after xs))"
    using Cons.prems ih by (intro descending_insert_sorted) (simp_all add: set_js_sort)
  then show ?case by (simp add: js_sort_def)
qed

lemma descending_by_map: "descending_by f (map g xs) = descending_by (\<lambda>x. f (g x)) xs"
  by (induction "\<lambda>x. f (g x)" xs rule: descending_by.induct) simp_all

lemma map_of_set_prop: "map_of (set_prop k v props) = (map_of props)(k \<mapsto> v)"
  by (induction props) (auto simp: fun_eq_iff)

lemma distinct_set_prop:
  "distinct (map fst props) \<Longrightarrow> distinct (map fst (set_prop k v props))"
proof (induction props)
  case Nil
  then show ?case by simp
next
  case (Cons p props)
  obtain k' v' where p: "p = (k', v')" by (cases p)
  show ?case
  proof (cases "k' = k")
    case True
    with Cons.prems show ?thesis unfolding p by simp
  next
    case False
    have "k' \<notin> set (map fst (set_prop k v props))"
      using Cons.prems False unfolding p keys_set_prop by simp
    with False Cons show ?thesis unfolding p by simp
  qed
qed

lemma occurrences_snoc:
  "occurrences (ws @ [w]) k = (if k = w then occurrences ws k + 1 else occurrences ws k)"
  by (simp add: occurrences_def)

lemma occurrences_zero: "w \<notin> set ws \<Longrightarrow> occurrences ws w = 0"
  by (auto simp: occurrences_def filter_empty_conv)

lemma counted_bump:
  assumes "counted props ws" "w \<notin> set object_prototype_keys"
  shows "counted (bump_word props w) (ws @ [w])"
proof (cases "w \<in> set ws")
  case True
  with assms(1) have "map_of props w = Some (Count (occurrences ws w))" by (simp add: counted_def)
  then have "bump_word props w = set_prop w (Count (occurrences ws w + 1)) props"
    by (simp add: bump_word_def)
  with assms(1) show ?thesis
    by (simp add: counted_def distinct_set_prop map_of_set_prop occurrences_snoc)
next
  case False
  with assms(1) have "map_of props w = None" by (simp add: counted_def)
  moreover have "w \<noteq> ''__proto__''" using assms(2) by (auto simp: object_prototype_keys_def)
  ultimately have "bump_word props w = set_prop w (Count 1) props"
    using assms(2) by (simp add: bump_word_def)
  with assms(1) False show ?thesis
    by (simp add: counted_def distinct_set_prop map_of_set_prop occurrences_snoc occurrences_zero)
qed

lemma counted_foldl:
  assumes "set ws \<inter> set object_prototype_keys = {}"
  shows "counted (foldl bump_word [] ws) ws"
  using assms
proof (induction ws rule: rev_induct)
  case Nil
  then show ?case by (simp add: counted_def)
next
  case (snoc w ws)
  then have "counted (foldl bump_word [] ws) ws" "w \<notin> set object_prototype_keys" by auto
  then have "counted (bump_word (foldl bump_word [] ws) w) (ws @ [w])" by (rule counted_bump)
  then show ?case by simp
qed

lemma counted_entry:
  assumes "counted props ws" "(k, v) \<in> set props"
  shows "v = Count (occurrences ws k)"
proof -
  from assms(1) have "distinct (map fst props)" by (simp add: counted_def)
  then have "map_of props k = Some v" using assms(2) by (rule map_of_is_SomeI)
  moreover from assms(1)
  have "map_of props k = (if k \<in> set ws then Some (Count (occurrences ws k)) else None)"
    by (simp add: counted_def)
  ultimately show ?thesis by (simp split: if_splits)
qed

lemma by_frequency_descending:
  assumes "set ws \<inter> set object_prototype_keys = {}"
  shows "descending_by (occurrences ws) (by_frequency ws)"
proof -
  let ?T = "foldl bump_word [] ws"
  let ?f = "\<lambda>e. occurrences ws (fst e)"
  have c: "counted ?T ws" using assms by (rule counted_foldl)
  have val: "\<And>e. e \<in> set (object_entries ?T) \<Longrightarrow> snd e = Count (?f e)"
  proof -
    fix e assume "e \<in> set (object_entries ?T)"
    then have "(fst e, snd e) \<in> set ?T" by (simp add: set_object_entries)
    with c show "snd e = Count (?f e)" by (rule counted_entry)
  qed
  have "\<And>a b. a \<in> set (object_entries ?T) \<Longrightarrow> b \<in> set (object_entries ?T)
           \<Longrightarrow> freq_after a b = (?f b > ?f a)"
  proof -
    fix a b assume "a \<in> set (object_entries ?T)" "b \<in> set (object_entries ?T)"
    then have "snd a = Count (?f a)" "snd b = Count (?f b)" using val by blast+
    then show "freq_after a b = (?f b > ?f a)" by (cases a; cases b) simp
  qed
  then have "descending_by ?f (js_sort freq_after (object_entries ?T))"
    by (rule descending_js_sort)
  then show ?thesis by (simp add: by_frequency_def descending_by_map)
qed

text \<open>
  When no word that passes the filter is the name of a property that every object
  inherits, the keywords are in descending order of their frequency.
\<close>

lemma extractKeywords_descending:
  assumes "set (filtered_words tokenize stopwords text) \<inter> set object_prototype_keys = {}"
  shows "descending_by (occurrences (filtered_words tokenize stopwords text))
           (extractKeywords tokenize stopwords text)"
  using by_frequency_descending [OF assms]
  by (simp add: extractKeywords_def filtered_words_def Let_def)

lemma constructor_filtered:
  "filtered_words word_tokenizer sample_stopwords constructor_text
     = [''constructor'', ''alpha'', ''alpha'']"
  by code_simp

lemma constructor_keywords:
  "extractKeywords word_tokenizer sample_stopwords constructor_text = [''constructor'', ''alpha'']"
  by code_simp

text \<open>
  Claim C7 fails on the code. In the text \<open>constructor alpha alpha\<close> the word
  \<open>alpha\<close> occurs twice and \<open>constructor\<close> once, but the table of counts
  inherits a property \<open>constructor\<close>, the count of that word becomes a string, the
  comparison with it is NaN, and the sort leaves \<open>constructor\<close> in front of
  \<open>alpha\<close>.
\<close>

theorem extractKeywords_not_descending:
  "filtered_words word_tokenizer sample_stopwords constructor_text
     = [''constructor'', ''alpha'', ''alpha'']
   \<and> extractKeywords word_tokenizer sample_stopwords constructor_text
     = [''constructor'', ''alpha'']
   \<and> occurrences (filtered_words word_tokenizer sample_stopwords constructor_text) ''constructor'' = 1
   \<and> occurrences (filtered_words word_tokenizer sample_stopwords constructor_text) ''alpha'' = 2
   \<and> \<not> descending_by (occurrences (filtered_words word_tokenizer sample_stopwords constructor_text))
         (extractKeywords word_tokenizer sample_stopwords constructor_text)"
  unfolding constructor_filtered constructor_keywords
  by (simp add: occurrences_def)

section \<open>Properties of the content ranking\<close>


text \<open>
  The gap of a skill as \<open>fetchDevBlogs\<close> computes it is the difference of the target
  level and the level, as a double, when both are there and the target level is not 0.
\<close>

lemma gap_of_levels:
  "t \<noteq> 0 \<Longrightarrow> fl (or_default (Some t) 50 - or_default (Some l) 0) = fl (t - l)"
  by (simp add: or_default_def)










text \<open>
  The sums are those of doubles: with gap 40 and the three bonuses the relevance is the
  double below 1, where the sum of the four decimal numbers is 1.
\<close>

lemma calculateRelevance_rounds:
  "calculateRelevance 1700000000000 \<lparr>p_name = ''go'', gap = 40, p_category = ''other''\<rparr>
     (article_tagged ''go'' (Some 1700000000000) (Num 10))
   = 9007199254740991 / 9007199254740992"
  by code_simp

section \<open>Properties of the analysis pipeline\<close>

lemma setSkillProgress_detached:
  "setSkillProgress_from Detached userId xs r = (Inl TypeError, r)"
  by (simp add: setSkillProgress_from_def)

text \<open>
  Every way through the \<open>try\<close> block ends in a throw: a stage fails, or a write of
  \<open>setDashboard\<close> is rejected, or the run reaches the call of \<open>setSkillProgress\<close>.
\<close>

lemma processResume_try_throws:
  "\<exists>e r'. processResume_try w filePath fileType userId now r = (Inl e, r')"
  unfolding processResume_try_def Let_def setSkillProgress_detached
  by (simp split: sum.split prod.split ner_value.split)

text \<open>
  Claim C10. For every file, file type and user, every behaviour of the decoders, of
  the inference service, of the library and of the store, \<open>processResume\<close> resolves,
  and it resolves with the fixed fallback analysis: no failure is propagated. The
  fallback analysis has the score 70, no keywords, no important phrases, the neutral
  sentiment with score 1 and no results, the readability record of zeros, empty entity
  buckets and no skill assessment.
\<close>

theorem processResume_never_rejects:
  "(\<exists>r'. processResume w filePath fileType userId now r = (Inr fallbackAnalysis, r'))
   \<and> d_score fallbackAnalysis = 70
   \<and> d_keywords fallbackAnalysis = []
   \<and> importantPhrases fallbackAnalysis = []
   \<and> d_sentiment fallbackAnalysis = neutral_sentiment
   \<and> d_readability fallbackAnalysis = zero_readability
   \<and> skills (d_entities fallbackAnalysis) = []
   \<and> companies (d_entities fallbackAnalysis) = []
   \<and> titles (d_entities fallbackAnalysis) = []
   \<and> education (d_entities fallbackAnalysis) = []
   \<and> certifications (d_entities fallbackAnalysis) = None
   \<and> skillAssessment fallbackAnalysis = []"
proof -
  obtain e r' where "processResume_try w filePath fileType userId now r = (Inl e, r')"
    using processResume_try_throws by blast
  then have "processResume w filePath fileType userId now r = (Inr fallbackAnalysis, r')"
    by (simp add: processResume_def)
  then have "\<exists>r'. processResume w filePath fileType userId now r = (Inr fallbackAnalysis, r')"
    by blast
  then show ?thesis
    by (simp add: fallbackAnalysis_def neutral_sentiment_def zero_readability_def)
qed

text \<open>The case of a failed text extraction: the store is not touched.\<close>

lemma processResume_unsupported_type:
  assumes "extractTextFromFile w filePath fileType = Inl e"
  shows "processResume w filePath fileType userId now r = (Inr fallbackAnalysis, r)"
  using assms by (simp add: processResume_def processResume_try_def)

section \<open>Properties of the entity extraction\<close>

lemma set_uniq: "set (uniq xs) = set xs"
  by (induction xs rule: uniq.induct) auto

lemma distinct_uniq: "distinct (uniq xs)"
  by (induction xs rule: uniq.induct) (auto simp: set_uniq)

lemma letter_not_space: "is_letter c \<Longrightarrow> \<not> is_space c"
  by (auto simp: is_letter_def is_space_def Let_def)

lemma letter_entity_char: "is_letter c \<Longrightarrow> entity_char c"
  by (simp add: entity_char_def is_word_char_def)

lemma hash_not_entity_char: "\<not> entity_char (CHR ''#'')"
  by (simp add: entity_char_def is_word_char_def is_letter_def is_digit_def is_space_def)

lemma upper_letter: "is_upper c \<Longrightarrow> is_letter c"
  by (simp add: is_upper_def is_letter_def Let_def)

lemma lower_char_letter: "is_letter (lower_char c) \<Longrightarrow> is_letter c"
  by (auto simp: lower_char_def is_letter_def Let_def split: if_splits)

lemma trim_Nil: "trim [] = []"
  by (simp add: trim_def)

lemma trim_prefix: "\<exists>w. dropWhile is_space s = trim s @ w"
proof -
  let ?u = "dropWhile is_space s"
  have "rev (dropWhile is_space (rev ?u)) @ rev (takeWhile is_space (rev ?u))
          = rev (takeWhile is_space (rev ?u) @ dropWhile is_space (rev ?u))"
    by (simp only: rev_append)
  also have "\<dots> = rev (rev ?u)" by (simp only: takeWhile_dropWhile_id)
  also have "\<dots> = ?u" by simp
  finally have "?u = trim s @ rev (takeWhile is_space (rev ?u))"
    by (simp only: trim_def)
  then show ?thesis by blast
qed

lemma set_trim: "set (trim s) \<subseteq> set s"
proof -
  obtain w where "dropWhile is_space s = trim s @ w" using trim_prefix by blast
  then have "set (trim s) \<subseteq> set (dropWhile is_space s)" by simp
  also have "\<dots> \<subseteq> set s" by (rule set_dropWhileD [THEN subsetI])
  finally show ?thesis .
qed

lemma trim_ends:
  assumes "trim s \<noteq> []"
  shows "\<not> is_space (hd (trim s))" "\<not> is_space (last (trim s))"
proof -
  obtain w where w: "dropWhile is_space s = trim s @ w" using trim_prefix by blast
  with assms have "hd (trim s) = hd (dropWhile is_space s)" by simp
  moreover have "dropWhile is_space s \<noteq> []" using w assms by simp
  ultimately show "\<not> is_space (hd (trim s))" by (simp add: hd_dropWhile)
  have "rev (trim s) = dropWhile is_space (rev (dropWhile is_space s))" by (simp add: trim_def)
  moreover from assms have "rev (trim s) \<noteq> []" by simp
  ultimately have "\<not> is_space (hd (rev (trim s)))" by (simp add: hd_dropWhile)
  with assms show "\<not> is_space (last (trim s))" by (simp add: hd_rev)
qed

lemma trim_fixed:
  assumes "s \<noteq> []" "\<not> is_space (hd s)" "\<not> is_space (last s)"
  shows "trim s = s"
proof -
  have a: "dropWhile is_space s = s" using assms(1,2) by (cases s) simp_all
  have "rev s \<noteq> []" "\<not> is_space (hd (rev s))" using assms(1,3) by (simp_all add: hd_rev)
  then have "dropWhile is_space (rev s) = rev s" by (cases "rev s") simp_all
  with a show ?thesis by (simp add: trim_def)
qed

lemma trim_idem: "trim (trim s) = trim s"
proof (cases "trim s = []")
  case True
  then show ?thesis by (simp add: trim_Nil)
next
  case False
  then show ?thesis by (intro trim_fixed trim_ends)
qed

lemma cleanEntityText_chars: "c \<in> set (cleanEntityText s) \<Longrightarrow> entity_char c"
  using set_trim [of "filter entity_char (strip_marker s)"] by (auto simp: cleanEntityText_def)

lemma no_marker: "\<forall>c \<in> set s. entity_char c \<Longrightarrow> strip_marker s = s"
  using hash_not_entity_char
  by (cases s) (auto simp: strip_marker_def)

lemma cleanEntityText_idem: "cleanEntityText (cleanEntityText s) = cleanEntityText s"
proof -
  let ?y = "cleanEntityText s"
  have chars: "\<forall>c \<in> set ?y. entity_char c" using cleanEntityText_chars by blast
  then have "strip_marker ?y = ?y" by (rule no_marker)
  moreover have "filter entity_char ?y = ?y" using chars by (simp add: filter_id_conv)
  moreover have "trim ?y = ?y" by (simp add: cleanEntityText_def trim_idem)
  ultimately show ?thesis by (simp add: cleanEntityText_def [of ?y])
qed

lemma letters_clean:
  assumes "s \<noteq> []" "\<forall>c \<in> set s. is_letter c"
  shows "trim s = s" "cleanEntityText s = s"
proof -
  have "hd s \<in> set s" "last s \<in> set s" using assms(1) by simp_all
  then have "\<not> is_space (hd s)" "\<not> is_space (last s)"
    using assms(2) letter_not_space by blast+
  with assms(1) show t: "trim s = s" by (intro trim_fixed)
  have e: "\<forall>c \<in> set s. entity_char c" using assms(2) letter_entity_char by blast
  then have "strip_marker s = s" by (rule no_marker)
  moreover have "filter entity_char s = s" using e by (simp add: filter_id_conv)
  ultimately show "cleanEntityText s = s" using t by (simp add: cleanEntityText_def)
qed



lemma letters_name_clean:
  assumes "letters_name s"
  shows "clean_nontrivial s \<and> trim s = s \<and> s \<noteq> []"
proof -
  from assms have ne: "s \<noteq> []" and l: "\<forall>c \<in> set s. is_letter c" and n: "length s > 1"
    by (auto simp: letters_name_def)
  from letters_clean [OF ne l] n ne show ?thesis by (simp add: clean_nontrivial_def)
qed

lemma name_at_letters: "name_at b s = Some (nm, t) \<Longrightarrow> letters_name nm"
  by (auto simp: name_at_def letters_name_def upper_letter split: list.splits if_splits
      dest: set_takeWhileD)

lemma match_company_letters: "match_company s = Some (g, t) \<Longrightarrow> letters_name g"
  by (auto simp: match_company_def split: if_splits option.splits dest: name_at_letters)

lemma lowered_letters:
  assumes "map lower_char xs = ys" "\<forall>c \<in> set ys. is_letter c"
  shows "\<forall>c \<in> set xs. is_letter c"
proof
  fix c assume "c \<in> set xs"
  then have "lower_char c \<in> set ys" using assms(1) by auto
  then show "is_letter c" using assms(2) lower_char_letter by blast
qed

lemma university_letters: "\<forall>c \<in> set ''university''. is_letter c"
  by (simp add: is_letter_def)

lemma college_letters: "\<forall>c \<in> set ''college''. is_letter c"
  by (simp add: is_letter_def)

lemma institution_word_letters:
  assumes "institution_word s = Some n"
  shows "letters_name (take n s)"
proof -
  from assms consider "n = 10" "map lower_char (take 10 s) = ''university''"
    | "n = 7" "map lower_char (take 7 s) = ''college''"
    by (auto simp: institution_word_def split: if_splits)
  then show ?thesis
  proof cases
    case 1
    have "length (map lower_char (take 10 s)) = 10" unfolding 1(2) by simp
    then have "length (take 10 s) = 10" by (simp only: length_map)
    moreover have "\<forall>c \<in> set (take 10 s). is_letter c"
      using 1(2) university_letters by (rule lowered_letters)
    ultimately show ?thesis unfolding 1(1) letters_name_def by simp
  next
    case 2
    have "length (map lower_char (take 7 s)) = 7" unfolding 2(2) by simp
    then have "length (take 7 s) = 7" by (simp only: length_map)
    moreover have "\<forall>c \<in> set (take 7 s). is_letter c"
      using 2(2) college_letters by (rule lowered_letters)
    ultimately show ?thesis unfolding 2(1) letters_name_def by simp
  qed
qed

lemma match_education_letters: "match_education s = Some (g, t) \<Longrightarrow> letters_name g"
  by (auto simp: match_education_def split: if_splits option.splits dest: institution_word_letters)

lemma match_at_letters: "match_at p s = Some (g, t) \<Longrightarrow> letters_name g"
  by (cases p) (auto simp: match_at_def dest: match_company_letters match_education_letters)

lemma exec_all_letters: "g \<in> set (exec_all p s) \<Longrightarrow> letters_name g"
proof (induction p s rule: exec_all.induct)
  case (1 p)
  then show ?case by simp
next
  case (2 p c cs)
  show ?case
  proof (cases "match_at p (c # cs)")
    case None
    with 2 show ?thesis by simp
  next
    case (Some m)
    obtain g' rest where m: "m = (g', rest)" by (cases m)
    from 2(3) Some m have "g = g' \<or> g \<in> set (exec_all p rest)" by simp
    then show ?thesis
    proof
      assume "g = g'"
      with Some m show ?thesis using match_at_letters by blast
    next
      assume "g \<in> set (exec_all p rest)"
      with 2(2) Some m show ?thesis by simp
    qed
  qed
qed

lemma extractByPattern_good: "good_bucket (extractByPattern text p)"
proof -
  have "\<forall>g \<in> set (extractByPattern text p). clean_nontrivial g"
  proof
    fix g assume "g \<in> set (extractByPattern text p)"
    then obtain g0 where g0: "g0 \<in> set (exec_all p text)" "g = trim g0"
      by (auto simp: extractByPattern_def set_uniq)
    from g0(1) have "letters_name g0" by (rule exec_all_letters)
    then show "clean_nontrivial g" using letters_name_clean g0(2) by simp
  qed
  then show ?thesis
    by (simp add: good_bucket_def list_all_iff extractByPattern_def distinct_uniq)
qed

lemma techKeywords_good: "good_bucket techKeywords"
proof -
  have "\<forall>k \<in> set techKeywords. letters_name k"
    by (simp add: techKeywords_def letters_name_def is_letter_def)
  then have "\<forall>k \<in> set techKeywords. clean_nontrivial k" using letters_name_clean by blast
  moreover have "distinct techKeywords" by (simp add: techKeywords_def)
  ultimately show ?thesis by (simp add: good_bucket_def list_all_iff)
qed

lemma good_bucket_filter: "good_bucket xs \<Longrightarrow> good_bucket (filter P xs)"
  by (simp add: good_bucket_def list_all_iff)

lemma good_bucket_Nil: "good_bucket []"
  by (simp add: good_bucket_def)

lemma no_entities_well_formed: "well_formed no_entities"
  by (simp add: well_formed_def no_entities_def good_bucket_Nil)

lemma fallback_well_formed: "well_formed (fallbackEntityExtraction input)"
proof (cases input)
  case None
  then show ?thesis by (simp add: fallbackEntityExtraction_def no_entities_well_formed)
next
  case (Some t)
  show ?thesis
  proof (cases "t = []")
    case True
    with Some show ?thesis by (simp add: fallbackEntityExtraction_def no_entities_well_formed)
  next
    case False
    with Some show ?thesis
      by (simp add: fallbackEntityExtraction_def well_formed_def good_bucket_Nil
          extractByPattern_good good_bucket_filter [OF techKeywords_good])
  qed
qed

lemma finish_bucket_good: "good_bucket (finish_bucket xs)"
  by (auto simp: good_bucket_def finish_bucket_def distinct_uniq set_uniq list_all_iff
      clean_nontrivial_def cleanEntityText_idem)

lemma add_item_certifications:
  "certifications result \<noteq> None \<Longrightarrow> certifications (add_item result it) \<noteq> None"
  by (cases it) (simp_all add: add_item_def push_cert_def Let_def)

lemma fold_certifications:
  "certifications result \<noteq> None \<Longrightarrow> certifications (foldl add_item result items) \<noteq> None"
proof (induction items arbitrary: result)
  case Nil
  then show ?case by simp
next
  case (Cons it items)
  have "certifications (add_item result it) \<noteq> None"
    using Cons.prems by (rule add_item_certifications)
  then have "certifications (foldl add_item (add_item result it) items) \<noteq> None"
    by (rule Cons.IH)
  then show ?case by simp
qed

lemma processNERResults_well_formed: "well_formed (processNERResults reply)"
proof (cases reply)
  case None
  then show ?thesis by (simp add: processNERResults_def no_entities_well_formed)
next
  case (Some items)
  have "certifications (foldl add_item no_entities items) \<noteq> None"
    by (rule fold_certifications) (simp add: no_entities_def)
  then obtain cs where "certifications (foldl add_item no_entities items) = Some cs" by blast
  with Some show ?thesis
    by (simp add: processNERResults_def finish_buckets_def well_formed_def finish_bucket_good)
qed


text \<open>A call to Redis: whether it goes through, and the store it leaves.\<close>

lemma redis_call_eq: "redis_call r = (call_ok r 0, after_call r)"
  by (cases r) (auto simp: redis_call_def call_ok_def after_call_def split: list.splits)

lemma after_call_simps:
  "ner_ns (after_call r) = ner_ns r"
  "call_ok (after_call r) n = call_ok r (Suc n)"
  by (simp_all add: after_call_def call_ok_def drop_Suc)

lemma call_ok_update: "call_ok (r\<lparr>ner_ns := m\<rparr>) n = call_ok r n"
  by (simp add: call_ok_def)

lemma lookup_rejected_call: "lookup_rejected r = (\<not> call_ok r 0)"
  by (simp add: lookup_rejected_def call_ok_def split: list.splits)

lemma valid_text:
  assumes "\<not> invalid_input input"
  obtains t where "input = Some t" "t \<noteq> []" "trim t \<noteq> []"
proof -
  from assms obtain t where t0: "input = Some t" "trim t \<noteq> []"
    by (cases input) (auto simp: invalid_input_def)
  then have "t \<noteq> []" using trim_Nil by auto
  with t0 that show ?thesis by blast
qed

text \<open>The request and the write of its result, and the lookup in front of them.\<close>

lemma request_entities_eq:
  "request_entities api t k r =
     (if api t = Rejected then (Inl RequestFailed, r)
      else if api t = Falsy then (Inl NoDataReceived, r)
      else (Inr (Structure (processNERResults (reply_items (api t)))),
            if call_ok r 0
            then (after_call r)\<lparr>ner_ns := (ner_ns r)(k \<mapsto>
                    Cached (Structure (processNERResults (reply_items (api t)))))\<rparr>
            else after_call r))"
  by (cases "api t")
     (simp_all add: request_entities_def redis_call_eq reply_items_def after_call_simps
        Let_def)

lemma extractEntities_try_eq:
  assumes "t \<noteq> []" "trim t \<noteq> []"
  shows "extractEntities_try api (Some t) r =
     (if \<not> call_ok r 0 then (Inl RedisError, after_call r)
      else (case ner_ns r (hashText t) of
              Some (Cached parsed) \<Rightarrow> (Inr parsed, after_call r)
            | Some Corrupt \<Rightarrow>
                if \<not> call_ok r 1 then (Inl RedisError, after_call (after_call r))
                else request_entities api t (hashText t)
                       ((after_call (after_call r))\<lparr>ner_ns := (ner_ns r)(hashText t := None)\<rparr>)
            | None \<Rightarrow> request_entities api t (hashText t) (after_call r)))"
  using assms
  by (simp add: extractEntities_try_def redis_call_eq after_call_simps Let_def
      split: option.split ner_entry.split)

text \<open>The five ways through \<open>extractEntities\<close>.\<close>

lemma extractEntities_invalid:
  assumes "invalid_input input"
  shows "extractEntities api input r = (Inr (Structure (fallbackEntityExtraction input)), r)"
  using assms
  by (cases input) (auto simp: extractEntities_def extractEntities_try_def invalid_input_def trim_Nil)

lemma extractEntities_rejected:
  assumes "\<not> invalid_input input" "lookup_rejected r"
  shows "extractEntities api input r
           = (Inr (Structure (fallbackEntityExtraction input)), after_call r)"
proof -
  from assms(1) obtain t where t: "input = Some t" "t \<noteq> []" "trim t \<noteq> []" by (rule valid_text)
  from assms(2) have "\<not> call_ok r 0" by (simp add: lookup_rejected_call)
  then show ?thesis
    unfolding t(1) extractEntities_def extractEntities_try_eq [OF t(2,3)] by simp
qed

lemma extractEntities_hit:
  assumes "cache_hit input r parsed"
  shows "extractEntities api input r = (Inr parsed, after_call r)"
proof -
  from assms obtain t where i: "input = Some t" and v: "\<not> invalid_input input"
    and l: "\<not> lookup_rejected r" and e: "ner_ns r (hashText t) = Some (Cached parsed)"
    by (cases input) (auto simp: cache_hit_def)
  from v i obtain t: "t \<noteq> []" "trim t \<noteq> []" by (auto elim: valid_text)
  from l have "call_ok r 0" by (simp add: lookup_rejected_call)
  with e show ?thesis
    unfolding i extractEntities_def extractEntities_try_eq [OF t] by simp
qed

lemma extractEntities_deletion:
  assumes "deletion_rejected input r"
  shows "extractEntities api input r
           = (Inr (Structure (fallbackEntityExtraction input)), after_call (after_call r))"
proof -
  from assms obtain t where i: "input = Some t" and v: "\<not> invalid_input input"
    and l: "\<not> lookup_rejected r" and e: "ner_ns r (hashText t) = Some Corrupt"
    and d: "\<not> call_ok r 1"
    by (cases input) (auto simp: deletion_rejected_def)
  from v i obtain t: "t \<noteq> []" "trim t \<noteq> []" by (auto elim: valid_text)
  from l have "call_ok r 0" by (simp add: lookup_rejected_call)
  with e d show ?thesis
    unfolding i extractEntities_def extractEntities_try_eq [OF t] by simp
qed

lemma extractEntities_request:
  assumes "request_made input r t"
  shows "\<exists>r'. extractEntities api input r
             = (Inr (Structure (if api t = Rejected \<or> api t = Falsy
                                then fallbackEntityExtraction input
                                else processNERResults (reply_items (api t)))), r')
           \<and> ner_ns r' =
               (if api t \<noteq> Rejected \<and> api t \<noteq> Falsy \<and> write_ok r t
                then (ner_ns r)(hashText t \<mapsto>
                        Cached (Structure (processNERResults (reply_items (api t)))))
                else (ner_ns r)(hashText t := None))"
proof -
  from assms have i: "input = Some t" and v: "\<not> invalid_input input"
    and l: "\<not> lookup_rejected r"
    and e: "ner_ns r (hashText t) = None \<or> ner_ns r (hashText t) = Some Corrupt \<and> call_ok r 1"
    by (auto simp: request_made_def split: option.splits ner_entry.splits)
  from v i obtain t: "t \<noteq> []" "trim t \<noteq> []" by (auto elim: valid_text)
  from l have ok: "call_ok r 0" by (simp add: lookup_rejected_call)
  from e show ?thesis
  proof
    assume n: "ner_ns r (hashText t) = None"
    then have "(ner_ns r)(hashText t := None) = ner_ns r" by (simp add: fun_upd_idem_iff)
    with n ok show ?thesis
      unfolding i extractEntities_def extractEntities_try_eq [OF t] request_entities_eq
      by (simp add: write_ok_def after_call_simps)
  next
    assume c: "ner_ns r (hashText t) = Some Corrupt \<and> call_ok r 1"
    with ok show ?thesis
      unfolding i extractEntities_def extractEntities_try_eq [OF t] request_entities_eq
      by (simp add: write_ok_def after_call_simps call_ok_update numeral_2_eq_2)
  qed
qed

lemma extractEntities_ways:
  "invalid_input input \<or> lookup_rejected r \<or> (\<exists>parsed. cache_hit input r parsed)
   \<or> deletion_rejected input r \<or> (\<exists>t. request_made input r t)"
proof (cases "invalid_input input \<or> lookup_rejected r")
  case True
  then show ?thesis by blast
next
  case False
  then obtain t where t: "input = Some t" by (auto elim: valid_text)
  show ?thesis
  proof (cases "ner_ns r (hashText t)")
    case None
    with False t have "request_made input r t" by (simp add: request_made_def)
    then show ?thesis by blast
  next
    case (Some entry)
    show ?thesis
    proof (cases entry)
      case (Cached parsed)
      with Some False t have "cache_hit input r parsed" by (simp add: cache_hit_def)
      then show ?thesis by blast
    next
      case Corrupt
      with Some False t have "deletion_rejected input r \<or> request_made input r t"
        by (simp add: deletion_rejected_def request_made_def)
      then show ?thesis by blast
    qed
  qed
qed

text \<open>The ways exclude one another.\<close>

lemma ways_apart:
  "invalid_input input \<Longrightarrow> \<not> cache_hit input r parsed"
  "invalid_input input \<Longrightarrow> \<not> deletion_rejected input r"
  "invalid_input input \<Longrightarrow> \<not> request_made input r t"
  "lookup_rejected r \<Longrightarrow> \<not> cache_hit input r parsed"
  "lookup_rejected r \<Longrightarrow> \<not> deletion_rejected input r"
  "lookup_rejected r \<Longrightarrow> \<not> request_made input r t"
  "cache_hit input r parsed \<Longrightarrow> \<not> deletion_rejected input r"
  "cache_hit input r parsed \<Longrightarrow> \<not> request_made input r t"
  "deletion_rejected input r \<Longrightarrow> \<not> request_made input r t"
  by (auto simp: cache_hit_def deletion_rejected_def request_made_def
      split: option.splits ner_entry.splits)

lemma cache_hit_unique:
  "cache_hit input r parsed \<Longrightarrow> cache_hit input r parsed' \<Longrightarrow> parsed' = parsed"
  by (auto simp: cache_hit_def split: option.splits)

lemma request_made_unique:
  "request_made input r t \<Longrightarrow> request_made input r t' \<Longrightarrow> t' = t"
  by (auto simp: request_made_def)

lemma structure_well_formed: "value_well_formed (Structure e) = well_formed e"
  by (simp add: value_well_formed_def)

lemma cache_same:
  assumes "cache_well_formed r" "ner_ns r' = ner_ns r"
  shows "cache_well_formed r'"
  using assms by (simp add: cache_well_formed_def)

lemma cache_written:
  assumes "cache_well_formed r"
    and "ner_ns r' = (if c then (ner_ns r)(k \<mapsto> Cached (Structure e)) else (ner_ns r)(k := None))"
    and "well_formed e"
  shows "cache_well_formed r'"
  using assms by (auto simp: cache_well_formed_def value_well_formed_def)

lemma cache_hit_value:
  assumes "cache_well_formed r" "cache_hit input r parsed"
  shows "value_well_formed parsed"
  using assms by (auto simp: cache_well_formed_def cache_hit_def split: option.splits)

lemma reply_items_simps:
  "reply_items NotArray = None" "reply_items (Items items) = Some items"
  by (simp_all add: reply_items_def)

lemma processNERResults_None: "processNERResults None = no_entities"
  by (simp add: processNERResults_def)

text \<open>
  Claim C5, as amended. For every input, every behaviour of the inference service and
  every store, \<open>extractEntities\<close> returns a value and never an error. When the lookup
  finds a cached string that parses (a hit), that value is what the string parses to,
  as it is, and the store keeps its entries. In every other case the value is a well
  formed structure: the five buckets, each without duplicates and made of cleaned
  strings of more than one character. So on a store whose entries are well formed the
  value is well formed in every case, and the entries of the store stay well formed.
  When the input is no string, or empty or blank, when the lookup is rejected, and when
  the deletion of a cached string that does not parse is rejected, the value is the
  result of the fallback and the store keeps its entries. When the request to the
  inference service is made, that is, the lookup found no entry, or a string that does
  not parse and whose deletion went through: on a request that fails or has an empty
  body the value is the result of the fallback and the key has no entry; on a body that
  is not an array the value is the structure of five empty buckets; on an array it is
  what \<open>processNERResults\<close> collects from it; and in these two cases the value is
  cached under the key when the write goes through, and the key has no entry when the
  write is rejected.
\<close>

theorem extractEntities_well_formed:
  "\<exists>v r'. extractEntities api input r = (Inr v, r')
     \<and> (\<forall>parsed. cache_hit input r parsed \<longrightarrow> v = parsed \<and> ner_ns r' = ner_ns r)
     \<and> ((\<forall>parsed. \<not> cache_hit input r parsed) \<longrightarrow> value_well_formed v)
     \<and> (cache_well_formed r \<longrightarrow> value_well_formed v \<and> cache_well_formed r')
     \<and> (invalid_input input \<or> lookup_rejected r \<or> deletion_rejected input r
          \<longrightarrow> v = Structure (fallbackEntityExtraction input) \<and> ner_ns r' = ner_ns r)
     \<and> (\<forall>t. request_made input r t \<longrightarrow>
            (api t = Rejected \<or> api t = Falsy \<longrightarrow>
               v = Structure (fallbackEntityExtraction input)
               \<and> ner_ns r' = (ner_ns r)(hashText t := None))
          \<and> (api t = NotArray \<longrightarrow> v = Structure no_entities)
          \<and> (\<forall>items. api t = Items items \<longrightarrow> v = Structure (processNERResults (Some items)))
          \<and> (api t \<noteq> Rejected \<and> api t \<noteq> Falsy \<longrightarrow>
               ner_ns r' = (if write_ok r t then (ner_ns r)(hashText t \<mapsto> Cached v)
                            else (ner_ns r)(hashText t := None))))"
proof -
  let ?fb = "Structure (fallbackEntityExtraction input)"
  have fb: "value_well_formed ?fb" by (simp add: structure_well_formed fallback_well_formed)
  from extractEntities_ways [of input r]
  consider (invalid) "invalid_input input"
    | (rejected) "\<not> invalid_input input" "lookup_rejected r"
    | (hit) parsed where "cache_hit input r parsed"
    | (deletion) "deletion_rejected input r"
    | (request) t where "request_made input r t"
    by blast
  then show ?thesis
  proof cases
    case invalid
    have run: "extractEntities api input r = (Inr ?fb, r)"
      using invalid by (rule extractEntities_invalid)
    have no: "\<And>parsed. \<not> cache_hit input r parsed" "\<And>t. \<not> request_made input r t"
      using invalid by (simp_all add: ways_apart)
    show ?thesis
      by (intro exI [of _ ?fb] exI [of _ r]) (simp add: run no fb)
  next
    case rejected
    have run: "extractEntities api input r = (Inr ?fb, after_call r)"
      using rejected by (rule extractEntities_rejected)
    have no: "\<And>parsed. \<not> cache_hit input r parsed" "\<And>t. \<not> request_made input r t"
      using rejected(2) by (simp_all add: ways_apart)
    have keep: "cache_well_formed r \<longrightarrow> cache_well_formed (after_call r)"
      by (simp add: cache_well_formed_def after_call_simps)
    show ?thesis
      by (intro exI [of _ ?fb] exI [of _ "after_call r"])
         (simp add: run no fb keep after_call_simps)
  next
    case hit
    have run: "extractEntities api input r = (Inr parsed, after_call r)"
      using hit by (rule extractEntities_hit)
    have no: "\<not> invalid_input input" "\<not> lookup_rejected r" "\<not> deletion_rejected input r"
      "\<And>t. \<not> request_made input r t"
      using hit by (auto dest: ways_apart)
    have same: "\<And>parsed'. cache_hit input r parsed' \<longrightarrow> parsed = parsed'"
      using hit by (auto dest: cache_hit_unique)
    have some: "\<not> (\<forall>parsed'. \<not> cache_hit input r parsed')" using hit by blast
    have keep: "cache_well_formed r \<longrightarrow> value_well_formed parsed \<and> cache_well_formed (after_call r)"
    proof
      assume w: "cache_well_formed r"
      then have "value_well_formed parsed" using hit by (rule cache_hit_value)
      moreover have "cache_well_formed (after_call r)"
        using w by (simp add: cache_well_formed_def after_call_simps)
      ultimately show "value_well_formed parsed \<and> cache_well_formed (after_call r)" by blast
    qed
    show ?thesis
      by (intro exI [of _ parsed] exI [of _ "after_call r"])
         (simp add: run no same some keep after_call_simps)
  next
    case deletion
    have run: "extractEntities api input r = (Inr ?fb, after_call (after_call r))"
      using deletion by (rule extractEntities_deletion)
    have no: "\<And>parsed. \<not> cache_hit input r parsed" "\<And>t. \<not> request_made input r t"
      using deletion by (auto dest: ways_apart)
    have keep: "cache_well_formed r \<longrightarrow> cache_well_formed (after_call (after_call r))"
      by (simp add: cache_well_formed_def after_call_simps)
    show ?thesis
      by (intro exI [of _ ?fb] exI [of _ "after_call (after_call r)"])
         (simp add: run no fb keep after_call_simps)
  next
    case request
    let ?found = "processNERResults (reply_items (api t))"
    let ?e = "if api t = Rejected \<or> api t = Falsy then fallbackEntityExtraction input else ?found"
    from extractEntities_request [OF request, of api]
    obtain r' where run: "extractEntities api input r = (Inr (Structure ?e), r')"
      and store: "ner_ns r' =
               (if api t \<noteq> Rejected \<and> api t \<noteq> Falsy \<and> write_ok r t
                then (ner_ns r)(hashText t \<mapsto> Cached (Structure ?found))
                else (ner_ns r)(hashText t := None))"
      by blast
    have no: "\<not> invalid_input input" "\<not> lookup_rejected r" "\<not> deletion_rejected input r"
      "\<And>parsed. \<not> cache_hit input r parsed"
      using request by (auto dest: ways_apart)
    have wf: "well_formed ?e" by (simp add: fallback_well_formed processNERResults_well_formed)
    have keep: "cache_well_formed r \<longrightarrow> cache_well_formed r'"
      using store processNERResults_well_formed [of "reply_items (api t)"]
      by (auto simp: cache_well_formed_def value_well_formed_def split: if_splits)
    have answer:
      "(api t = Rejected \<or> api t = Falsy \<longrightarrow>
               Structure ?e = Structure (fallbackEntityExtraction input)
               \<and> ner_ns r' = (ner_ns r)(hashText t := None))
          \<and> (api t = NotArray \<longrightarrow> Structure ?e = Structure no_entities)
          \<and> (\<forall>items. api t = Items items \<longrightarrow> Structure ?e = Structure (processNERResults (Some items)))
          \<and> (api t \<noteq> Rejected \<and> api t \<noteq> Falsy \<longrightarrow>
               ner_ns r' = (if write_ok r t then (ner_ns r)(hashText t \<mapsto> Cached (Structure ?e))
                            else (ner_ns r)(hashText t := None)))"
      using store by (auto simp: reply_items_simps processNERResults_None)
    have all: "\<forall>t'. request_made input r t' \<longrightarrow>
            (api t' = Rejected \<or> api t' = Falsy \<longrightarrow>
               Structure ?e = Structure (fallbackEntityExtraction input)
               \<and> ner_ns r' = (ner_ns r)(hashText t' := None))
          \<and> (api t' = NotArray \<longrightarrow> Structure ?e = Structure no_entities)
          \<and> (\<forall>items. api t' = Items items \<longrightarrow> Structure ?e = Structure (processNERResults (Some items)))
          \<and> (api t' \<noteq> Rejected \<and> api t' \<noteq> Falsy \<longrightarrow>
               ner_ns r' = (if write_ok r t' then (ner_ns r)(hashText t' \<mapsto> Cached (Structure ?e))
                            else (ner_ns r)(hashText t' := None)))"
    proof (intro allI impI)
      fix t' assume "request_made input r t'"
      with request have "t' = t" by (rule request_made_unique)
      with answer show "(api t' = Rejected \<or> api t' = Falsy \<longrightarrow>
               Structure ?e = Structure (fallbackEntityExtraction input)
               \<and> ner_ns r' = (ner_ns r)(hashText t' := None))
          \<and> (api t' = NotArray \<longrightarrow> Structure ?e = Structure no_entities)
          \<and> (\<forall>items. api t' = Items items \<longrightarrow> Structure ?e = Structure (processNERResults (Some items)))
          \<and> (api t' \<noteq> Rejected \<and> api t' \<noteq> Falsy \<longrightarrow>
               ner_ns r' = (if write_ok r t' then (ner_ns r)(hashText t' \<mapsto> Cached (Structure ?e))
                            else (ner_ns r)(hashText t' := None)))"
        by simp
    qed
    have wfv: "value_well_formed (Structure ?e)" using wf by (simp only: structure_well_formed)
    show ?thesis
    proof (intro exI [of _ "Structure ?e"] exI [of _ r'] conjI)
      show "extractEntities api input r = (Inr (Structure ?e), r')" by (rule run)
      show "\<forall>parsed. cache_hit input r parsed \<longrightarrow> Structure ?e = parsed \<and> ner_ns r' = ner_ns r"
        using no(4) by blast
      show "(\<forall>parsed. \<not> cache_hit input r parsed) \<longrightarrow> value_well_formed (Structure ?e)"
        using wfv by blast
      show "cache_well_formed r \<longrightarrow> value_well_formed (Structure ?e) \<and> cache_well_formed r'"
        using wfv keep by blast
      show "invalid_input input \<or> lookup_rejected r \<or> deletion_rejected input r
          \<longrightarrow> Structure ?e = Structure (fallbackEntityExtraction input) \<and> ner_ns r' = ner_ns r"
        using no(1,2,3) by blast
      show "\<forall>t'. request_made input r t' \<longrightarrow>
            (api t' = Rejected \<or> api t' = Falsy \<longrightarrow>
               Structure ?e = Structure (fallbackEntityExtraction input)
               \<and> ner_ns r' = (ner_ns r)(hashText t' := None))
          \<and> (api t' = NotArray \<longrightarrow> Structure ?e = Structure no_entities)
          \<and> (\<forall>items. api t' = Items items \<longrightarrow> Structure ?e = Structure (processNERResults (Some items)))
          \<and> (api t' \<noteq> Rejected \<and> api t' \<noteq> Falsy \<longrightarrow>
               ner_ns r' = (if write_ok r t' then (ner_ns r)(hashText t' \<mapsto> Cached (Structure ?e))
                            else (ner_ns r)(hashText t' := None)))"
        by (rule all)
    qed
  qed
qed

lemma sample_fallback:
  "fallbackEntityExtraction (Some sample_text)
     = \<lparr>skills = [''javascript'', ''java''], companies = [''Google''], titles = [],
        education = [], certifications = Some []\<rparr>"
  by code_simp

lemma sample_valid: "\<not> invalid_input (Some sample_text)"
  by code_simp

lemma sample_found:
  "processNERResults (Some sample_items)
     = \<lparr>skills = [''React''], companies = [''Google''], titles = [], education = [],
        certifications = Some []\<rparr>"
  by code_simp

lemma blank_invalid: "invalid_input (Some ''  '')"
  by code_simp

lemma sample_stores:
  "cache_well_formed empty_redis"
  "request_made (Some sample_text) empty_redis sample_text"
  "cache_hit (Some sample_text) null_store Other_json"
  "request_made (Some sample_text) corrupt_store sample_text"
  "write_ok corrupt_store sample_text"
  "invalid_input (Some ''  '')"
  "lookup_rejected down_store"
  "deletion_rejected (Some sample_text) (second_fails corrupt_store)"
  "request_made (Some sample_text) (second_fails empty_redis) sample_text"
  "\<not> write_ok (second_fails empty_redis) sample_text"
  by (simp_all add: cache_well_formed_def request_made_def cache_hit_def write_ok_def
      deletion_rejected_def blank_invalid
      sample_valid lookup_rejected_def call_ok_def empty_redis_def null_store_def
      corrupt_store_def down_store_def second_fails_def)

lemma blank_fallback: "fallbackEntityExtraction (Some ''  '') = no_entities"
  by code_simp

text \<open>
  Claim C5 at a text, run by run. The request fails on an empty store: the value is the
  fallback's, with the two skills and the company the patterns find. The store holds
  the string \<open>null\<close> under the key of the text: the value is null. The store holds a
  string that does not parse and the service answers with an array: the value is what
  is collected from the array, and it is cached under the key. The text is blank, or
  the lookup is rejected: the value is the fallback's. The deletion of the string that
  does not parse is rejected: the value is the fallback's and the string stays. The
  body is not an array and the write is rejected: the value has five empty buckets and
  the key has no entry.
\<close>

theorem extractEntities_fallback_example:
  "cache_well_formed empty_redis
   \<and> request_made (Some sample_text) empty_redis sample_text
   \<and> fst (extractEntities (\<lambda>t. Rejected) (Some sample_text) empty_redis)
     = Inr (Structure \<lparr>skills = [''javascript'', ''java''], companies = [''Google''],
                       titles = [], education = [], certifications = Some []\<rparr>)
   \<and> cache_hit (Some sample_text) null_store Other_json
   \<and> fst (extractEntities (\<lambda>t. Rejected) (Some sample_text) null_store) = Inr Other_json
   \<and> request_made (Some sample_text) corrupt_store sample_text
   \<and> write_ok corrupt_store sample_text
   \<and> fst (extractEntities (\<lambda>t. Items sample_items) (Some sample_text) corrupt_store)
     = Inr (Structure \<lparr>skills = [''React''], companies = [''Google''], titles = [],
                       education = [], certifications = Some []\<rparr>)
   \<and> ner_ns (snd (extractEntities (\<lambda>t. Items sample_items) (Some sample_text) corrupt_store))
        (hashText sample_text)
     = Some (Cached (Structure \<lparr>skills = [''React''], companies = [''Google''], titles = [],
                               education = [], certifications = Some []\<rparr>))
   \<and> invalid_input (Some ''  '')
   \<and> fst (extractEntities (\<lambda>t. Items sample_items) (Some ''  '') empty_redis)
     = Inr (Structure no_entities)
   \<and> lookup_rejected down_store
   \<and> fst (extractEntities (\<lambda>t. Items sample_items) (Some sample_text) down_store)
     = Inr (Structure \<lparr>skills = [''javascript'', ''java''], companies = [''Google''],
                       titles = [], education = [], certifications = Some []\<rparr>)
   \<and> deletion_rejected (Some sample_text) (second_fails corrupt_store)
   \<and> fst (extractEntities (\<lambda>t. Items sample_items) (Some sample_text)
             (second_fails corrupt_store))
     = Inr (Structure \<lparr>skills = [''javascript'', ''java''], companies = [''Google''],
                       titles = [], education = [], certifications = Some []\<rparr>)
   \<and> ner_ns (snd (extractEntities (\<lambda>t. Items sample_items) (Some sample_text)
                    (second_fails corrupt_store))) (hashText sample_text)
     = Some Corrupt
   \<and> request_made (Some sample_text) (second_fails empty_redis) sample_text
   \<and> \<not> write_ok (second_fails empty_redis) sample_text
   \<and> fst (extractEntities (\<lambda>t. NotArray) (Some sample_text) (second_fails empty_redis))
     = Inr (Structure no_entities)
   \<and> ner_ns (snd (extractEntities (\<lambda>t. NotArray) (Some sample_text)
                    (second_fails empty_redis))) (hashText sample_text)
     = None"
proof -
  let ?fb = "Structure (fallbackEntityExtraction (Some sample_text))"
  from extractEntities_well_formed [of "\<lambda>t. Rejected" "Some sample_text" empty_redis]
  obtain v1 r1 where
    run1: "extractEntities (\<lambda>t. Rejected) (Some sample_text) empty_redis = (Inr v1, r1)"
    and req1: "\<forall>t. request_made (Some sample_text) empty_redis t \<longrightarrow> v1 = ?fb"
    by auto
  from req1 sample_stores(2) have v1: "v1 = ?fb" by blast
  from extractEntities_well_formed [of "\<lambda>t. Rejected" "Some sample_text" null_store]
  obtain v2 r2 where
    run2: "extractEntities (\<lambda>t. Rejected) (Some sample_text) null_store = (Inr v2, r2)"
    and hit2: "\<forall>parsed. cache_hit (Some sample_text) null_store parsed \<longrightarrow> v2 = parsed"
    by auto
  from hit2 sample_stores(3) have v2: "v2 = Other_json" by blast
  from extractEntities_well_formed [of "\<lambda>t. Items sample_items" "Some sample_text" corrupt_store]
  obtain v3 r3 where
    run3: "extractEntities (\<lambda>t. Items sample_items) (Some sample_text) corrupt_store
             = (Inr v3, r3)"
    and req3: "\<forall>t. request_made (Some sample_text) corrupt_store t \<longrightarrow>
                 v3 = Structure (processNERResults (Some sample_items))
               \<and> ner_ns r3 = (if write_ok corrupt_store t
                              then (ner_ns corrupt_store)(hashText t \<mapsto> Cached v3)
                              else (ner_ns corrupt_store)(hashText t := None))"
    by auto
  from req3 sample_stores(4,5)
  have v3: "v3 = Structure (processNERResults (Some sample_items))"
    and s3: "ner_ns r3 = (ner_ns corrupt_store)(hashText sample_text \<mapsto> Cached v3)"
    by auto
  from extractEntities_well_formed [of "\<lambda>t. Items sample_items" "Some ''  ''" empty_redis]
  obtain v4 r4 where
    run4: "extractEntities (\<lambda>t. Items sample_items) (Some ''  '') empty_redis = (Inr v4, r4)"
    and inv4: "invalid_input (Some ''  '')
               \<longrightarrow> v4 = Structure (fallbackEntityExtraction (Some ''  ''))"
    by auto
  from inv4 sample_stores(6) have v4: "v4 = Structure no_entities"
    by (simp add: blank_fallback)
  from extractEntities_well_formed [of "\<lambda>t. Items sample_items" "Some sample_text" down_store]
  obtain v5 r5 where
    run5: "extractEntities (\<lambda>t. Items sample_items) (Some sample_text) down_store
             = (Inr v5, r5)"
    and rej5: "lookup_rejected down_store \<longrightarrow> v5 = ?fb"
    by auto
  from rej5 sample_stores(7) have v5: "v5 = ?fb" by blast
  from extractEntities_well_formed [of "\<lambda>t. Items sample_items" "Some sample_text"
      "second_fails corrupt_store"]
  obtain v6 r6 where
    run6: "extractEntities (\<lambda>t. Items sample_items) (Some sample_text)
             (second_fails corrupt_store) = (Inr v6, r6)"
    and del6: "deletion_rejected (Some sample_text) (second_fails corrupt_store)
               \<longrightarrow> v6 = ?fb \<and> ner_ns r6 = ner_ns (second_fails corrupt_store)"
    by auto
  from del6 sample_stores(8)
  have v6: "v6 = ?fb" and s6: "ner_ns r6 = ner_ns (second_fails corrupt_store)" by blast+
  from extractEntities_well_formed [of "\<lambda>t. NotArray" "Some sample_text"
      "second_fails empty_redis"]
  obtain v7 r7 where
    run7: "extractEntities (\<lambda>t. NotArray) (Some sample_text) (second_fails empty_redis)
             = (Inr v7, r7)"
    and req7: "\<forall>t. request_made (Some sample_text) (second_fails empty_redis) t \<longrightarrow>
                 v7 = Structure no_entities
               \<and> ner_ns r7 = (if write_ok (second_fails empty_redis) t
                              then (ner_ns (second_fails empty_redis))(hashText t \<mapsto> Cached v7)
                              else (ner_ns (second_fails empty_redis))(hashText t := None))"
    by auto
  from req7 sample_stores(9,10)
  have v7: "v7 = Structure no_entities"
    and s7: "ner_ns r7 = (ner_ns (second_fails empty_redis))(hashText sample_text := None)"
    by auto
  have a: "cache_well_formed empty_redis
   \<and> request_made (Some sample_text) empty_redis sample_text
   \<and> cache_hit (Some sample_text) null_store Other_json
   \<and> request_made (Some sample_text) corrupt_store sample_text
   \<and> write_ok corrupt_store sample_text
   \<and> invalid_input (Some ''  '')
   \<and> lookup_rejected down_store
   \<and> deletion_rejected (Some sample_text) (second_fails corrupt_store)
   \<and> request_made (Some sample_text) (second_fails empty_redis) sample_text
   \<and> \<not> write_ok (second_fails empty_redis) sample_text"
    using sample_stores by blast
  have b: "fst (extractEntities (\<lambda>t. Rejected) (Some sample_text) empty_redis)
     = Inr (Structure \<lparr>skills = [''javascript'', ''java''], companies = [''Google''],
                       titles = [], education = [], certifications = Some []\<rparr>)
   \<and> fst (extractEntities (\<lambda>t. Rejected) (Some sample_text) null_store) = Inr Other_json
   \<and> fst (extractEntities (\<lambda>t. Items sample_items) (Some sample_text) corrupt_store)
     = Inr (Structure \<lparr>skills = [''React''], companies = [''Google''], titles = [],
                       education = [], certifications = Some []\<rparr>)
   \<and> ner_ns (snd (extractEntities (\<lambda>t. Items sample_items) (Some sample_text) corrupt_store))
        (hashText sample_text)
     = Some (Cached (Structure \<lparr>skills = [''React''], companies = [''Google''], titles = [],
                               education = [], certifications = Some []\<rparr>))"
    by (simp add: run1 v1 sample_fallback run2 v2 run3 v3 s3 sample_found)
  have c: "fst (extractEntities (\<lambda>t. Items sample_items) (Some ''  '') empty_redis)
     = Inr (Structure no_entities)
   \<and> fst (extractEntities (\<lambda>t. Items sample_items) (Some sample_text) down_store)
     = Inr (Structure \<lparr>skills = [''javascript'', ''java''], companies = [''Google''],
                       titles = [], education = [], certifications = Some []\<rparr>)
   \<and> fst (extractEntities (\<lambda>t. Items sample_items) (Some sample_text)
             (second_fails corrupt_store))
     = Inr (Structure \<lparr>skills = [''javascript'', ''java''], companies = [''Google''],
                       titles = [], education = [], certifications = Some []\<rparr>)
   \<and> ner_ns (snd (extractEntities (\<lambda>t. Items sample_items) (Some sample_text)
                    (second_fails corrupt_store))) (hashText sample_text)
     = Some Corrupt
   \<and> fst (extractEntities (\<lambda>t. NotArray) (Some sample_text) (second_fails empty_redis))
     = Inr (Structure no_entities)
   \<and> ner_ns (snd (extractEntities (\<lambda>t. NotArray) (Some sample_text)
                    (second_fails empty_redis))) (hashText sample_text)
     = None"
    unfolding run4 run5 run6 run7 fst_conv snd_conv v4 v5 v6 v7 s6 s7 sample_fallback
    by (simp add: second_fails_def corrupt_store_def)
  from a b c show ?thesis by blast
qed

lemma not_array_result:
  "fst (extractEntities (\<lambda>t. NotArray) (Some sample_text) empty_redis)
     = Inr (Structure no_entities)"
  by code_simp

text \<open>
  Claim C5 as stated fails: when the service answers the same text with a body that is
  not an array, the result is the structure of empty buckets and not the result of the
  fallback.
\<close>

theorem extractEntities_not_array:
  "fst (extractEntities (\<lambda>t. NotArray) (Some sample_text) empty_redis)
     = Inr (Structure no_entities)
   \<and> fallbackEntityExtraction (Some sample_text)
     = \<lparr>skills = [''javascript'', ''java''], companies = [''Google''], titles = [],
        education = [], certifications = Some []\<rparr>
   \<and> fst (extractEntities (\<lambda>t. NotArray) (Some sample_text) empty_redis)
     \<noteq> Inr (Structure (fallbackEntityExtraction (Some sample_text)))"
  unfolding not_array_result sample_fallback by (simp add: no_entities_def)

text \<open>
  It fails on a hit as well: the cached string \<open>null\<close> is returned as null, which is
  no structure of five buckets.
\<close>

lemma extractEntities_returns_cached:
  "fst (extractEntities api (Some sample_text) null_store) = Inr Other_json
   \<and> \<not> value_well_formed Other_json"
  using extractEntities_hit [OF sample_stores(3), of api]
  by (simp add: value_well_formed_def)

end
